theory Spec2Isabelle
  imports Main
begin


section \<open>Errors of the local repository handle\<close>

text \<open>
  Every error value that \<^verbatim>\<open>Local\<close>'s methods build is a constructor here. The Go code tells
  errors apart by their dynamic type only (\<^verbatim>\<open>IsTreeEntryNotFoundInRepoErr\<close> is a type switch
  on the outermost value), so the constructor is the kind and the arguments are what the
  value carries. \<open>External\<close> stands for an error handed over by a collaborator that is
  not part of this file (the tree reader, the status engine, a validation hook).
\<close>

datatype error =
    External string
  | TooManyLevels
  | TreeEntryNotFoundInRepoErr string
  | UnableToGetCommitTreeEntry string error
  | UnableToGetCommitTreeEntryContent string error
  | UnableToResolveCommitFile string error
  | UntrackedFilesFoundError "string list"
  | UncommittedFilesFoundError "string list"
  | SubmoduleAddedAndNotCommittedError string
  | SubmoduleDeletedError string
  | SubmoduleHasUntrackedChangesError string
  | SubmoduleHasUncommittedChangesError string
  | SubmoduleCommitChangedError string

fun IsTreeEntryNotFoundInRepoErr :: "error \<Rightarrow> bool" where
  "IsTreeEntryNotFoundInRepoErr (TreeEntryNotFoundInRepoErr _) = True"
| "IsTreeEntryNotFoundInRepoErr _ = False"

section \<open>Working-tree status and its validation\<close>

text \<open>
  The submodule status, \<^verbatim>\<open>status.Scope\<close> and \<^verbatim>\<open>status.Result\<close> live in another package;
  the handle only reads them. A scope is what its accessors \<^verbatim>\<open>PathList()\<close> and \<^verbatim>\<open>Submodules()\<close>
  return, and \<^verbatim>\<open>IndexWithWorktree()\<close> is what that method returns.
\<close>

record SubmoduleStatus =
  Path :: string
  IsAdded :: bool
  IsDeleted :: bool
  IsModified :: bool
  HasUntrackedChanges :: bool
  HasTrackedChanges :: bool
  IsCommitChanged :: bool

record Scope =
  PathList :: "string list"
  Submodules :: "SubmoduleStatus list"

record Result =
  UntrackedPathList :: "string list"
  Worktree :: Scope
  Index :: Scope
  IndexWithWorktree :: Scope

record PathMatcher =
  IsPathMatched :: "string \<Rightarrow> bool"
  IsDirOrSubmodulePathMatched :: "string \<Rightarrow> bool"

record StatusPathListOptions =
  OnlyWorktreeChanges :: bool
  OnlyUntrackedChanges :: bool

type_synonym ValidateStatusResultOptions = StatusPathListOptions

text \<open>The \<^verbatim>\<open>for _, submodule := range scope.Submodules()\<close> loop of
  \<^verbatim>\<open>validateStatusResultSubmodules\<close>; \<open>None\<close> is Go's \<^verbatim>\<open>nil\<close> error.\<close>

fun submodulesLoop :: "PathMatcher \<Rightarrow> SubmoduleStatus list \<Rightarrow> error option" where
  "submodulesLoop pathMatcher [] = None"
| "submodulesLoop pathMatcher (submodule # rest) =
     (if \<not> IsDirOrSubmodulePathMatched pathMatcher (Path submodule)
        then submodulesLoop pathMatcher rest
      else if IsAdded submodule
        then Some (SubmoduleAddedAndNotCommittedError (Path submodule))
      else if IsDeleted submodule
        then Some (SubmoduleDeletedError (Path submodule))
      else if IsModified submodule
        then (if HasUntrackedChanges submodule
                then Some (SubmoduleHasUntrackedChangesError (Path submodule))
              else if HasTrackedChanges submodule
                then Some (SubmoduleHasUncommittedChangesError (Path submodule))
              else if IsCommitChanged submodule
                then Some (SubmoduleCommitChangedError (Path submodule))
              else submodulesLoop pathMatcher rest)
      else submodulesLoop pathMatcher rest)"

definition validateStatusResultSubmodules :: "PathMatcher \<Rightarrow> Scope \<Rightarrow> error option" where
  "validateStatusResultSubmodules pathMatcher scope =
     (if length (Submodules scope) = 0 then None
      else submodulesLoop pathMatcher (Submodules scope))"

section \<open>The handle and the commit tree behind it\<close>

text \<open>
  A tree entry's mode is one of go-git's six well-formed file modes; \<open>Malformed\<close> stands
  for every other value of the mode word (\<^verbatim>\<open>IsMalformed()\<close> holds of exactly those), which
  is what the tree reader reports for a path with no entry.
\<close>

datatype FileMode = Malformed | Dir | Regular | Deprecated | Executable | Symlink | Submodule

fun IsMalformed :: "FileMode \<Rightarrow> bool" where
  "IsMalformed Malformed = True"
| "IsMalformed _ = False"

record LsTreeEntry =
  FullFilepath :: string
  Mode :: FileMode

text \<open>
  The handle \<^verbatim>\<open>Local\<close>, as far as these methods read it. The native tree reader and the
  status engine are collaborators outside this file, so the handle carries their answers:
  \<open>status\<close> is what \<^verbatim>\<open>repo.status(ctx)\<close> returns, \<open>nativeTreeEntry repo commit path\<close> is
  \<^verbatim>\<open>lsTreeResult(...).LsTreeEntry(path)\<close> with the path as scope (or the error of
  \<^verbatim>\<open>lsTreeResult\<close>), and \<open>nativeTreeEntryContent repo commit path\<close> is the blob that
  \<^verbatim>\<open>LsTreeEntryContent\<close> reads (or its error).
\<close>

record Local =
  status :: "error + Result"
  nativeTreeEntry :: "string \<Rightarrow> string \<Rightarrow> error + LsTreeEntry"
  nativeTreeEntryContent :: "string \<Rightarrow> string \<Rightarrow> error + string"

definition getCommitTreeEntry :: "Local \<Rightarrow> string \<Rightarrow> string \<Rightarrow> error + LsTreeEntry" where
  "getCommitTreeEntry repo commit path = nativeTreeEntry repo commit path"

definition ReadCommitTreeEntryContent :: "Local \<Rightarrow> string \<Rightarrow> string \<Rightarrow> error + string" where
  "ReadCommitTreeEntryContent repo commit relPath = nativeTreeEntryContent repo commit relPath"

section \<open>Validation of the status result\<close>

definition ValidateStatusResult ::
  "Local \<Rightarrow> PathMatcher \<Rightarrow> ValidateStatusResultOptions \<Rightarrow> error option" where
  "ValidateStatusResult repo pathMatcher opts =
     (case status repo of
        Inl err \<Rightarrow> Some err
      | Inr statusResult \<Rightarrow>
          (let untrackedPathList = filter (IsPathMatched pathMatcher) (UntrackedPathList statusResult)
           in if length untrackedPathList \<noteq> 0
                then Some (UntrackedFilesFoundError untrackedPathList)
              else if OnlyUntrackedChanges opts then None
              else
                (let scope = (if OnlyWorktreeChanges opts then Worktree statusResult
                              else IndexWithWorktree statusResult);
                     uncommittedPathList = filter (IsPathMatched pathMatcher) (PathList scope)
                 in if length uncommittedPathList \<noteq> 0
                      then Some (UncommittedFilesFoundError uncommittedPathList)
                    else validateStatusResultSubmodules pathMatcher scope)))"

section \<open>Slash-separated paths\<close>

text \<open>
  Go's package \<^verbatim>\<open>path\<close> (imported as \<^verbatim>\<open>pathPkg\<close>) and \<^verbatim>\<open>strings.HasPrefix\<close>, on byte
  strings. \<open>path_Clean\<close> computes what \<^verbatim>\<open>path.Clean\<close> computes, element by element: empty
  elements and \<^verbatim>\<open>.\<close> are dropped, \<^verbatim>\<open>..\<close> removes the element before it when there is one
  that is not itself \<^verbatim>\<open>..\<close>, is dropped at the root of a rooted path, and is kept
  otherwise. The output elements are held last-first.
\<close>

fun splitOn :: "char \<Rightarrow> string \<Rightarrow> string list" where
  "splitOn sep [] = [[]]"
| "splitOn sep (c # cs) =
     (if c = sep then [] # splitOn sep cs
      else (case splitOn sep cs of [] \<Rightarrow> [[c]] | e # es \<Rightarrow> (c # e) # es))"

fun joinSlash :: "string list \<Rightarrow> string" where
  "joinSlash [] = []"
| "joinSlash [e] = e"
| "joinSlash (e # es) = e @ CHR ''/'' # joinSlash es"

definition cleanStep :: "bool \<Rightarrow> string list \<Rightarrow> string \<Rightarrow> string list" where
  "cleanStep rooted out e =
     (if e = [] \<or> e = ''.'' then out
      else if e = ''..'' then
        (if out \<noteq> [] \<and> hd out \<noteq> ''..'' then tl out
         else if \<not> rooted then ''..'' # out
         else out)
      else e # out)"

definition path_Clean :: "string \<Rightarrow> string" where
  "path_Clean path =
     (if path = [] then ''.''
      else
        (let rooted = (hd path = CHR ''/'');
             out = foldl (cleanStep rooted) [] (splitOn (CHR ''/'') path);
             s = (if rooted then ''/'' else []) @ joinSlash (rev out)
         in if s = [] then ''.'' else s))"

text \<open>\<^verbatim>\<open>path.Join\<close> of two elements, the only way this file calls it.\<close>

definition path_Join :: "string \<Rightarrow> string \<Rightarrow> string" where
  "path_Join a b =
     (if a = [] then (if b = [] then [] else path_Clean b)
      else path_Clean (a @ CHR ''/'' # b))"

text \<open>\<^verbatim>\<open>path.Dir\<close>: everything up to and including the last slash, cleaned.\<close>

definition path_Dir :: "string \<Rightarrow> string" where
  "path_Dir path = path_Clean (rev (dropWhile (\<lambda>c. c \<noteq> CHR ''/'') (rev path)))"

definition path_IsAbs :: "string \<Rightarrow> bool" where
  "path_IsAbs path = (case path of [] \<Rightarrow> False | c # _ \<Rightarrow> c = CHR ''/'')"

definition HasPrefix :: "string \<Rightarrow> string \<Rightarrow> bool" where
  "HasPrefix s pre = (take (length pre) s = pre)"

text \<open>
  Modelled from the spec: \<^verbatim>\<open>util.SplitFilepath\<close> is not among the sources. The spec has the
  resolver "walk path components left to right"; the components of a path are its
  slash-separated pieces.
\<close>

definition SplitFilepath :: "string \<Rightarrow> string list" where
  "SplitFilepath path = splitOn (CHR ''/'') path"

section \<open>Commit-tree path resolution\<close>

text \<open>
  \<^verbatim>\<open>resolveCommitFilePath\<close> and its \<^verbatim>\<open>for ind := 0; ind < pathPartsLen; ind++\<close> loop. The
  loop is \<open>resolveLoop\<close>: its arguments are the depth after \<^verbatim>\<open>depth++\<close>, the accumulated
  \<^verbatim>\<open>resolvedPath\<close> and the path parts not yet visited. \<^verbatim>\<open>checkSymlinkTargetFunc\<close> is \<open>None\<close>
  for Go's \<^verbatim>\<open>nil\<close>; a hook answers \<open>None\<close> for a \<^verbatim>\<open>nil\<close> error. The depth is a Go \<^verbatim>\<open>int\<close>:
  it starts at 0 and never passes 1001, so it cannot wrap.
\<close>

type_synonym checkFunc = "string \<Rightarrow> error option"

function resolveCommitFilePath ::
    "Local \<Rightarrow> string \<Rightarrow> string \<Rightarrow> int \<Rightarrow> checkFunc option \<Rightarrow> error + string"
  and resolveLoop ::
    "Local \<Rightarrow> string \<Rightarrow> int \<Rightarrow> checkFunc option \<Rightarrow> string \<Rightarrow> string list \<Rightarrow> error + string"
where
  "resolveCommitFilePath repo commit path depth checkSymlinkTargetFunc =
     (if depth > 1000 then Inl TooManyLevels
      else
        (case getCommitTreeEntry repo commit path of
           Inl err \<Rightarrow> Inl (UnableToGetCommitTreeEntry path err)
         | Inr lsTreeEntry \<Rightarrow>
             if Mode lsTreeEntry \<noteq> Symlink \<and> \<not> IsMalformed (Mode lsTreeEntry) then Inr path
             else resolveLoop repo commit (depth + 1) checkSymlinkTargetFunc [] (SplitFilepath path)))"
| "resolveLoop repo commit depth checkSymlinkTargetFunc resolvedPath [] = Inr resolvedPath"
| "resolveLoop repo commit depth checkSymlinkTargetFunc resolvedPath (part # rest) =
     (let pathToResolve = path_Join resolvedPath part in
      case getCommitTreeEntry repo commit pathToResolve of
        Inl err \<Rightarrow> Inl (UnableToGetCommitTreeEntry pathToResolve err)
      | Inr lsTreeEntry \<Rightarrow>
          if IsMalformed (Mode lsTreeEntry) then Inl (TreeEntryNotFoundInRepoErr pathToResolve)
          else if Mode lsTreeEntry = Symlink then
            (case ReadCommitTreeEntryContent repo commit pathToResolve of
               Inl err \<Rightarrow> Inl (UnableToGetCommitTreeEntryContent pathToResolve err)
             | Inr link \<Rightarrow>
                 if path_IsAbs link then Inl (TreeEntryNotFoundInRepoErr link)
                 else
                   (let resolvedLink = path_Join (path_Dir pathToResolve) link in
                    if resolvedLink = ''..'' \<or> HasPrefix resolvedLink ''../''
                      then Inl (TreeEntryNotFoundInRepoErr link)
                    else
                      (case (case checkSymlinkTargetFunc of
                               None \<Rightarrow> None
                             | Some check \<Rightarrow> check resolvedLink) of
                         Some err \<Rightarrow> Inl err
                       | None \<Rightarrow>
                           (case resolveCommitFilePath repo commit resolvedLink depth
                                   checkSymlinkTargetFunc of
                              Inl err \<Rightarrow> Inl err
                            | Inr resolvedTarget \<Rightarrow>
                                resolveLoop repo commit depth checkSymlinkTargetFunc
                                  resolvedTarget rest))))
          else resolveLoop repo commit depth checkSymlinkTargetFunc pathToResolve rest)"
  by pat_completeness auto
termination
  by (relation "measures
        [\<lambda>x. case x of Inl (repo, commit, path, depth, chk) \<Rightarrow> nat (1002 - depth)
                        | Inr (repo, commit, depth, chk, resolvedPath, parts) \<Rightarrow> nat (1002 - depth),
         \<lambda>x. case x of Inl _ \<Rightarrow> 0
                        | Inr (repo, commit, depth, chk, resolvedPath, parts) \<Rightarrow> Suc (length parts)]")
     auto

declare resolveCommitFilePath.simps [simp del]

definition ResolveCommitFilePath :: "Local \<Rightarrow> string \<Rightarrow> string \<Rightarrow> error + string" where
  "ResolveCommitFilePath repo commit path = resolveCommitFilePath repo commit path 0 None"

definition resolveAndCheckCommitFilePath ::
  "Local \<Rightarrow> string \<Rightarrow> string \<Rightarrow> checkFunc \<Rightarrow> error + string" where
  "resolveAndCheckCommitFilePath repo commit path checkSymlinkTargetFunc =
     resolveCommitFilePath repo commit path 0 (Some checkSymlinkTargetFunc)"

section \<open>Existence probes\<close>

text \<open>The \<^verbatim>\<open>for _, mode := range expectedFileModeList\<close> loop of \<^verbatim>\<open>checkCommitFileMode\<close>.\<close>

fun expectedFileModeLoop :: "FileMode list \<Rightarrow> FileMode \<Rightarrow> bool" where
  "expectedFileModeLoop [] entryMode = False"
| "expectedFileModeLoop (mode # rest) entryMode =
     (if mode = entryMode then True else expectedFileModeLoop rest entryMode)"

definition checkCommitFileMode ::
  "Local \<Rightarrow> string \<Rightarrow> string \<Rightarrow> FileMode list \<Rightarrow> error + bool" where
  "checkCommitFileMode repo commit path expectedFileModeList =
     (case ResolveCommitFilePath repo commit path of
        Inl err \<Rightarrow>
          if IsTreeEntryNotFoundInRepoErr err then Inr False
          else Inl (UnableToResolveCommitFile path err)
      | Inr resolvedPath \<Rightarrow>
          (case getCommitTreeEntry repo commit resolvedPath of
             Inl err \<Rightarrow> Inl (UnableToGetCommitTreeEntry resolvedPath err)
           | Inr lsTreeEntry \<Rightarrow> Inr (expectedFileModeLoop expectedFileModeList (Mode lsTreeEntry))))"

definition isCommitFileExist :: "Local \<Rightarrow> string \<Rightarrow> string \<Rightarrow> error + bool" where
  "isCommitFileExist repo commit path =
     checkCommitFileMode repo commit path [Regular, Deprecated, Executable]"

definition isCommitDirectoryExist :: "Local \<Rightarrow> string \<Rightarrow> string \<Rightarrow> error + bool" where
  "isCommitDirectoryExist repo commit path =
     checkCommitFileMode repo commit path [Dir, Submodule]"

text \<open>The exported probes wrap the two above in a log block and return their result.\<close>

definition IsCommitFileExist :: "Local \<Rightarrow> string \<Rightarrow> string \<Rightarrow> error + bool" where
  "IsCommitFileExist repo commit path = isCommitFileExist repo commit path"

definition IsCommitDirectoryExist :: "Local \<Rightarrow> string \<Rightarrow> string \<Rightarrow> error + bool" where
  "IsCommitDirectoryExist repo commit path = isCommitDirectoryExist repo commit path"

section \<open>Vocabulary for the resolver's properties\<close>

text \<open>The mode of the tree entry at a path, when the tree reader answers.\<close>

definition entryMode :: "Local \<Rightarrow> string \<Rightarrow> string \<Rightarrow> FileMode option" where
  "entryMode repo commit path =
     (case getCommitTreeEntry repo commit path of
        Inl err \<Rightarrow> None
      | Inr lsTreeEntry \<Rightarrow> Some (Mode lsTreeEntry))"

text \<open>The resolver's own test on a computed link target.\<close>

definition escapesRepository :: "string \<Rightarrow> bool" where
  "escapesRepository resolvedLink \<longleftrightarrow> resolvedLink = ''..'' \<or> HasPrefix resolvedLink ''../''"

text \<open>What the hook answers for a target; a missing hook accepts everything.\<close>

definition hookVerdict :: "checkFunc option \<Rightarrow> string \<Rightarrow> error option" where
  "hookVerdict checkSymlinkTargetFunc resolvedLink =
     (case checkSymlinkTargetFunc of None \<Rightarrow> None | Some check \<Rightarrow> check resolvedLink)"

text \<open>
  A top-level name: one non-empty path element other than \<^verbatim>\<open>.\<close> and \<^verbatim>\<open>..\<close>. Such a path is
  its own single component, it is clean, and its parent directory is \<^verbatim>\<open>.\<close>.
\<close>

definition isName :: "string \<Rightarrow> bool" where
  "isName p \<longleftrightarrow> p \<noteq> [] \<and> CHR ''/'' \<notin> set p \<and> p \<noteq> ''.'' \<and> p \<noteq> ''..''"

text \<open>
  A chain of \<open>n\<close> nested symlinks at top level: \<open>name 0\<close> links to \<open>name 1\<close>, which links
  to \<open>name 2\<close>, and so on up to \<open>name n\<close>. The names need not differ, so a cycle is a
  chain of every length.
\<close>

definition symlinkChain :: "Local \<Rightarrow> string \<Rightarrow> (nat \<Rightarrow> string) \<Rightarrow> nat \<Rightarrow> bool" where
  "symlinkChain repo commit name n \<longleftrightarrow>
     (\<forall>i\<le>n. isName (name i)) \<and>
     (\<forall>i<n. entryMode repo commit (name i) = Some Symlink \<and>
            ReadCommitTreeEntryContent repo commit (name i) = Inr (name (Suc i)))"

text \<open>
  A synthetic chain without a cycle: the links are \<^verbatim>\<open>l\<close>, \<^verbatim>\<open>ll\<close>, \<^verbatim>\<open>lll\<close>, ... each pointing to
  the next longer name, and the name of \<open>n + 1\<close> letters is a regular file.
\<close>

definition unaryName :: "nat \<Rightarrow> string" where
  "unaryName i = replicate (Suc i) (CHR ''l'')"

definition chainRepo :: "nat \<Rightarrow> Local" where
  "chainRepo n =
     \<lparr>status = Inl (External ''no status''),
      nativeTreeEntry = (\<lambda>commit path.
         Inr \<lparr>FullFilepath = path,
              Mode = (if path \<noteq> [] \<and> path = replicate (length path) (CHR ''l'')
                      then (if length path \<le> n then Symlink
                            else if length path = Suc n then Regular else Malformed)
                      else Malformed)\<rparr>),
      nativeTreeEntryContent = (\<lambda>commit path. Inr (CHR ''l'' # path))\<rparr>"

text \<open>A cycle: the link \<^verbatim>\<open>self\<close> points to itself.\<close>

definition loopRepo :: Local where
  "loopRepo =
     \<lparr>status = Inl (External ''no status''),
      nativeTreeEntry = (\<lambda>commit path.
         Inr \<lparr>FullFilepath = path, Mode = (if path = ''self'' then Symlink else Malformed)\<rparr>),
      nativeTreeEntryContent = (\<lambda>commit path. Inr ''self'')\<rparr>"

text \<open>A plain entry: the tree has an entry at the path and it is not a symlink.\<close>

definition isPlainEntry :: "Local \<Rightarrow> string \<Rightarrow> string \<Rightarrow> bool" where
  "isPlainEntry repo commit path \<longleftrightarrow>
     (case entryMode repo commit path of
        None \<Rightarrow> False
      | Some mode \<Rightarrow> mode \<noteq> Symlink \<and> \<not> IsMalformed mode)"

text \<open>
  A small commit tree: the symlink \<^verbatim>\<open>a\<close> to the directory \<^verbatim>\<open>d\<close>, which holds the regular file
  \<^verbatim>\<open>d/b\<close>; the symlink \<^verbatim>\<open>link\<close> to \<^verbatim>\<open>../outside\<close>, the symlink \<^verbatim>\<open>up\<close> to \<^verbatim>\<open>..\<close>, the symlink
  \<^verbatim>\<open>abs\<close> to \<^verbatim>\<open>/etc\<close>, and the symlink \<^verbatim>\<open>x\<close> to \<^verbatim>\<open>abs\<close>. A blob other than a symlink reads as
  \<^verbatim>\<open>hello\<close>.
\<close>

definition linkRepo :: Local where
  "linkRepo =
     \<lparr>status = Inl (External ''no status''),
      nativeTreeEntry = (\<lambda>commit path.
         Inr \<lparr>FullFilepath = path,
              Mode = (if path = ''a'' \<or> path = ''link'' \<or> path = ''up'' \<or> path = ''abs''
                         \<or> path = ''x'' then Symlink
                      else if path = ''d'' then Dir
                      else if path = ''d/b'' then Regular
                      else Malformed)\<rparr>),
      nativeTreeEntryContent = (\<lambda>commit path.
         Inr (if path = ''a'' then ''d''
              else if path = ''link'' then ''../outside''
              else if path = ''up'' then ''..''
              else if path = ''abs'' then ''/etc''
              else if path = ''x'' then ''abs''
              else ''hello''))\<rparr>"


text \<open>
  The path parts that follow a prefix name plain entries one after the other: each part,
  joined to what has been accumulated, is a well-formed entry that is not a symlink.
\<close>

fun plainBelow :: "Local \<Rightarrow> string \<Rightarrow> string \<Rightarrow> string list \<Rightarrow> bool" where
  "plainBelow repo commit prefix [] = True"
| "plainBelow repo commit prefix (part # rest) =
     (isPlainEntry repo commit (path_Join prefix part) \<and>
      plainBelow repo commit (path_Join prefix part) rest)"

text \<open>
  Resolution runs into a policy failure. \<open>policyFailureInPath repo commit check err depth path\<close>
  says that resolving \<open>path\<close> at \<open>depth\<close> comes, at this level or at any level below it,
  to a call entered above depth 1000 (then \<open>err\<close> is the too-many-levels error) or to a
  symlink whose text is absolute or whose computed target escapes the repository (then
  \<open>err\<close> is what that branch builds from the link text). \<open>policyFailureInLoop\<close> is the same
  for the walk over the remaining path parts.
\<close>

inductive policyFailureInPath ::
    "Local \<Rightarrow> string \<Rightarrow> checkFunc option \<Rightarrow> error \<Rightarrow> int \<Rightarrow> string \<Rightarrow> bool"
  and policyFailureInLoop ::
    "Local \<Rightarrow> string \<Rightarrow> checkFunc option \<Rightarrow> error \<Rightarrow> int \<Rightarrow> string \<Rightarrow> string list \<Rightarrow> bool"
  for repo :: Local and commit :: string and check :: "checkFunc option" and err :: error
where
  too_deep:
    "1000 < depth \<Longrightarrow> err = TooManyLevels \<Longrightarrow>
     policyFailureInPath repo commit check err depth path"
| enter:
    "depth \<le> 1000 \<Longrightarrow> entryMode repo commit path = Some mode \<Longrightarrow>
     mode = Symlink \<or> IsMalformed mode \<Longrightarrow>
     policyFailureInLoop repo commit check err (depth + 1) [] (SplitFilepath path) \<Longrightarrow>
     policyFailureInPath repo commit check err depth path"
| forbidden:
    "entryMode repo commit (path_Join resolvedPath part) = Some Symlink \<Longrightarrow>
     ReadCommitTreeEntryContent repo commit (path_Join resolvedPath part) = Inr link \<Longrightarrow>
     path_IsAbs link \<or>
       escapesRepository (path_Join (path_Dir (path_Join resolvedPath part)) link) \<Longrightarrow>
     err = TreeEntryNotFoundInRepoErr link \<Longrightarrow>
     policyFailureInLoop repo commit check err depth resolvedPath (part # rest)"
| below:
    "entryMode repo commit (path_Join resolvedPath part) = Some Symlink \<Longrightarrow>
     ReadCommitTreeEntryContent repo commit (path_Join resolvedPath part) = Inr link \<Longrightarrow>
     \<not> path_IsAbs link \<Longrightarrow>
     \<not> escapesRepository (path_Join (path_Dir (path_Join resolvedPath part)) link) \<Longrightarrow>
     hookVerdict check (path_Join (path_Dir (path_Join resolvedPath part)) link) = None \<Longrightarrow>
     policyFailureInPath repo commit check err depth
       (path_Join (path_Dir (path_Join resolvedPath part)) link) \<Longrightarrow>
     policyFailureInLoop repo commit check err depth resolvedPath (part # rest)"
| after_link:
    "entryMode repo commit (path_Join resolvedPath part) = Some Symlink \<Longrightarrow>
     ReadCommitTreeEntryContent repo commit (path_Join resolvedPath part) = Inr link \<Longrightarrow>
     \<not> path_IsAbs link \<Longrightarrow>
     \<not> escapesRepository (path_Join (path_Dir (path_Join resolvedPath part)) link) \<Longrightarrow>
     hookVerdict check (path_Join (path_Dir (path_Join resolvedPath part)) link) = None \<Longrightarrow>
     resolveCommitFilePath repo commit
       (path_Join (path_Dir (path_Join resolvedPath part)) link) depth check
       = Inr resolvedTarget \<Longrightarrow>
     policyFailureInLoop repo commit check err depth resolvedTarget rest \<Longrightarrow>
     policyFailureInLoop repo commit check err depth resolvedPath (part # rest)"
| after_plain:
    "isPlainEntry repo commit (path_Join resolvedPath part) \<Longrightarrow>
     policyFailureInLoop repo commit check err depth (path_Join resolvedPath part) rest \<Longrightarrow>
     policyFailureInLoop repo commit check err depth resolvedPath (part # rest)"




section \<open>Instances for status validation\<close>

text \<open>
  The instance: one untracked file next to an uncommitted path and an added submodule, all
  matched; and the same working copy without the untracked file, validated with
  \<^verbatim>\<open>OnlyUntrackedChanges\<close>.
\<close>

definition matchAll :: PathMatcher where
  "matchAll = \<lparr>IsPathMatched = (\<lambda>path. True), IsDirOrSubmodulePathMatched = (\<lambda>path. True)\<rparr>"

definition addedSubmodule :: SubmoduleStatus where
  "addedSubmodule =
     \<lparr>Path = ''vendor/lib'', IsAdded = True, IsDeleted = False, IsModified = False,
      HasUntrackedChanges = False, HasTrackedChanges = False, IsCommitChanged = False\<rparr>"

definition dirtyScope :: Scope where
  "dirtyScope = \<lparr>PathList = [''main.go''], Submodules = [addedSubmodule]\<rparr>"

definition dirtyRepo :: "string list \<Rightarrow> Local" where
  "dirtyRepo untracked =
     \<lparr>status = Inr \<lparr>UntrackedPathList = untracked, Worktree = dirtyScope,
                     Index = dirtyScope, IndexWithWorktree = dirtyScope\<rparr>,
      nativeTreeEntry = (\<lambda>commit path. Inl (External ''no tree'')),
      nativeTreeEntryContent = (\<lambda>commit path. Inl (External ''no tree''))\<rparr>"

section \<open>The submodule priority, as the specification words it\<close>

text \<open>
  The violation of one submodule by the fixed priority Added, then Deleted, then
  Modified, and within Modified: untracked changes, then tracked changes, then a changed
  commit. \<open>None\<close> when no violation applies to the submodule.
\<close>

definition submodulePriorityViolation :: "SubmoduleStatus \<Rightarrow> error option" where
  "submodulePriorityViolation submodule =
     (if IsAdded submodule then Some (SubmoduleAddedAndNotCommittedError (Path submodule))
      else if IsDeleted submodule then Some (SubmoduleDeletedError (Path submodule))
      else if IsModified submodule \<and> HasUntrackedChanges submodule
        then Some (SubmoduleHasUntrackedChangesError (Path submodule))
      else if IsModified submodule \<and> HasTrackedChanges submodule
        then Some (SubmoduleHasUncommittedChangesError (Path submodule))
      else if IsModified submodule \<and> IsCommitChanged submodule
        then Some (SubmoduleCommitChangedError (Path submodule))
      else None)"

text \<open>The first violation over the submodules that the matcher selects, in list order.\<close>

definition firstSubmoduleViolation :: "PathMatcher \<Rightarrow> SubmoduleStatus list \<Rightarrow> error option" where
  "firstSubmoduleViolation pathMatcher submodules =
     (case List.find (\<lambda>submodule. IsDirOrSubmodulePathMatched pathMatcher (Path submodule)
                                    \<and> submodulePriorityViolation submodule \<noteq> None) submodules of
        None \<Rightarrow> None
      | Some submodule \<Rightarrow> submodulePriorityViolation submodule)"

definition allFlagsSubmodule :: SubmoduleStatus where
  "allFlagsSubmodule =
     \<lparr>Path = ''vendor/dep'', IsAdded = False, IsDeleted = False, IsModified = True,
      HasUntrackedChanges = True, HasTrackedChanges = True, IsCommitChanged = True\<rparr>"

definition modifiedOnlySubmodule :: SubmoduleStatus where
  "modifiedOnlySubmodule =
     \<lparr>Path = ''vendor/quiet'', IsAdded = False, IsDeleted = False, IsModified = True,
      HasUntrackedChanges = False, HasTrackedChanges = False, IsCommitChanged = False\<rparr>"

definition commitChangedOnlySubmodule :: SubmoduleStatus where
  "commitChangedOnlySubmodule =
     \<lparr>Path = ''vendor/moved'', IsAdded = False, IsDeleted = False, IsModified = False,
      HasUntrackedChanges = False, HasTrackedChanges = False, IsCommitChanged = True\<rparr>"

definition submoduleRepo :: "SubmoduleStatus list \<Rightarrow> Local" where
  "submoduleRepo submodules =
     \<lparr>status = Inr \<lparr>UntrackedPathList = [],
                     Worktree = \<lparr>PathList = [], Submodules = submodules\<rparr>,
                     Index = \<lparr>PathList = [], Submodules = []\<rparr>,
                     IndexWithWorktree = \<lparr>PathList = [], Submodules = submodules\<rparr>\<rparr>,
      nativeTreeEntry = (\<lambda>commit path. Inl (External ''no tree'')),
      nativeTreeEntryContent = (\<lambda>commit path. Inl (External ''no tree''))\<rparr>"

section \<open>Properties of status validation\<close>

text \<open>
  C1. \<^verbatim>\<open>ValidateStatusResult\<close> looks at the untracked paths first. When the status is
  available and the matcher selects at least one untracked path, the result is
  \<open>UntrackedFilesFoundError\<close> with exactly the selected untracked paths, in order, whatever
  the options, the scopes' path lists and the submodules are. When it selects none and
  \<^verbatim>\<open>OnlyUntrackedChanges\<close> is set, the result is \<^verbatim>\<open>nil\<close>, whatever the scopes hold.
\<close>

theorem ValidateStatusResult_untracked_first:
  "status repo = Inr statusResult \<Longrightarrow>
     (filter (IsPathMatched pathMatcher) (UntrackedPathList statusResult) \<noteq> [] \<longrightarrow>
        ValidateStatusResult repo pathMatcher opts =
          Some (UntrackedFilesFoundError
                  (filter (IsPathMatched pathMatcher) (UntrackedPathList statusResult))))
   \<and> (filter (IsPathMatched pathMatcher) (UntrackedPathList statusResult) = [] \<and>
        OnlyUntrackedChanges opts \<longrightarrow>
        ValidateStatusResult repo pathMatcher opts = None)"
  by (simp add: ValidateStatusResult_def Let_def)

theorem ValidateStatusResult_untracked_first_witness:
  "ValidateStatusResult (dirtyRepo [''foo.txt'']) matchAll
      \<lparr>OnlyWorktreeChanges = False, OnlyUntrackedChanges = False\<rparr>
     = Some (UntrackedFilesFoundError [''foo.txt''])
   \<and> ValidateStatusResult (dirtyRepo []) matchAll
      \<lparr>OnlyWorktreeChanges = False, OnlyUntrackedChanges = True\<rparr> = None"
proof -
  let ?sr = "\<lambda>u. \<lparr>UntrackedPathList = u, Worktree = dirtyScope,
                     Index = dirtyScope, IndexWithWorktree = dirtyScope\<rparr>"
  have s: "\<And>u. status (dirtyRepo u) = Inr (?sr u)"
    by (simp add: dirtyRepo_def)
  show ?thesis
    using ValidateStatusResult_untracked_first
            [OF s, of matchAll "[''foo.txt'']"
               "\<lparr>OnlyWorktreeChanges = False, OnlyUntrackedChanges = False\<rparr>"]
          ValidateStatusResult_untracked_first
            [OF s, of matchAll "[]"
               "\<lparr>OnlyWorktreeChanges = False, OnlyUntrackedChanges = True\<rparr>"]
    by (simp add: matchAll_def)
qed

lemma submodulesLoop_first:
  "submodulesLoop pathMatcher submodules = firstSubmoduleViolation pathMatcher submodules"
  by (induction submodules)
     (simp_all add: firstSubmoduleViolation_def submodulePriorityViolation_def)

text \<open>
  C8. \<^verbatim>\<open>validateStatusResultSubmodules\<close> returns the violation of the first submodule, in the
  scope's order, that the matcher selects and to which a violation applies, and that
  violation follows the priority Added, Deleted, Modified with untracked changes, Modified
  with tracked changes, Modified with a changed commit. In particular a matched submodule
  that is neither added nor deleted and carries Modified, HasUntrackedChanges,
  HasTrackedChanges and IsCommitChanged at once yields SubmoduleHasUntrackedChangesError
  for its path, whatever follows it.
\<close>

theorem validateStatusResultSubmodules_priority:
  "validateStatusResultSubmodules pathMatcher scope
     = firstSubmoduleViolation pathMatcher (Submodules scope)
   \<and> (Submodules scope = submodule # rest \<and>
      IsDirOrSubmodulePathMatched pathMatcher (Path submodule) \<and>
      \<not> IsAdded submodule \<and> \<not> IsDeleted submodule \<and> IsModified submodule \<and>
      HasUntrackedChanges submodule \<and> HasTrackedChanges submodule \<and> IsCommitChanged submodule
      \<longrightarrow> validateStatusResultSubmodules pathMatcher scope
            = Some (SubmoduleHasUntrackedChangesError (Path submodule)))"
proof -
  have first: "validateStatusResultSubmodules pathMatcher scope
                 = firstSubmoduleViolation pathMatcher (Submodules scope)"
    by (cases "Submodules scope")
       (simp_all add: validateStatusResultSubmodules_def submodulesLoop_first
          firstSubmoduleViolation_def)
  show ?thesis
    by (simp add: first) (simp add: firstSubmoduleViolation_def submodulePriorityViolation_def)
qed

theorem validateStatusResultSubmodules_priority_witness:
  "validateStatusResultSubmodules matchAll
       \<lparr>PathList = [], Submodules = [allFlagsSubmodule, addedSubmodule]\<rparr>
     = Some (SubmoduleHasUntrackedChangesError ''vendor/dep'')"
  using validateStatusResultSubmodules_priority
          [of matchAll "\<lparr>PathList = [], Submodules = [allFlagsSubmodule, addedSubmodule]\<rparr>"
              allFlagsSubmodule "[addedSubmodule]", THEN conjunct2]
  by (simp add: matchAll_def allFlagsSubmodule_def)

text \<open>
  C10. A submodule that is neither added nor deleted and is either Modified with none of
  HasUntrackedChanges, HasTrackedChanges, IsCommitChanged, or not Modified at all (as one
  flagged IsCommitChanged only), contributes no violation wherever it stands in the
  scope's list: the scan goes on over the submodules after it, and \<^verbatim>\<open>ValidateStatusResult\<close>,
  once it reaches the submodules, answers as if that submodule were not listed.
\<close>

theorem ValidateStatusResult_skips_quiet_submodule:
  "\<not> IsAdded submodule \<and> \<not> IsDeleted submodule \<and>
   (\<not> IsModified submodule \<or>
    (\<not> HasUntrackedChanges submodule \<and> \<not> HasTrackedChanges submodule \<and>
     \<not> IsCommitChanged submodule)) \<Longrightarrow>
   submodulesLoop pathMatcher (before @ submodule # rest)
     = submodulesLoop pathMatcher (before @ rest)
   \<and> (status repo = Inr statusResult \<and>
      filter (IsPathMatched pathMatcher) (UntrackedPathList statusResult) = [] \<and>
      \<not> OnlyUntrackedChanges opts \<and>
      scope = (if OnlyWorktreeChanges opts then Worktree statusResult
               else IndexWithWorktree statusResult) \<and>
      filter (IsPathMatched pathMatcher) (PathList scope) = [] \<and>
      Submodules scope = before @ submodule # rest
      \<longrightarrow> ValidateStatusResult repo pathMatcher opts
            = submodulesLoop pathMatcher (before @ rest))"
proof -
  assume quiet: "\<not> IsAdded submodule \<and> \<not> IsDeleted submodule \<and>
   (\<not> IsModified submodule \<or>
    (\<not> HasUntrackedChanges submodule \<and> \<not> HasTrackedChanges submodule \<and>
     \<not> IsCommitChanged submodule))"
  have skip: "submodulesLoop pathMatcher (before @ submodule # rest)
                = submodulesLoop pathMatcher (before @ rest)"
  proof (induction before)
    case Nil
    from quiet show ?case by auto
  next
    case (Cons s before)
    then show ?case by simp
  qed
  show ?thesis
    by (simp add: skip)
       (auto simp add: ValidateStatusResult_def validateStatusResultSubmodules_def skip Let_def)
qed

theorem ValidateStatusResult_skips_quiet_submodule_witness:
  "ValidateStatusResult (submoduleRepo [modifiedOnlySubmodule, allFlagsSubmodule]) matchAll
      \<lparr>OnlyWorktreeChanges = False, OnlyUntrackedChanges = False\<rparr>
     = Some (SubmoduleHasUntrackedChangesError ''vendor/dep'')
   \<and> ValidateStatusResult (submoduleRepo [allFlagsSubmodule]) matchAll
      \<lparr>OnlyWorktreeChanges = False, OnlyUntrackedChanges = False\<rparr>
     = Some (SubmoduleHasUntrackedChangesError ''vendor/dep'')
   \<and> ValidateStatusResult (submoduleRepo [commitChangedOnlySubmodule]) matchAll
      \<lparr>OnlyWorktreeChanges = False, OnlyUntrackedChanges = False\<rparr> = None"
proof -
  let ?opts = "\<lparr>OnlyWorktreeChanges = False, OnlyUntrackedChanges = False\<rparr>"
  let ?sr = "\<lambda>subs. \<lparr>UntrackedPathList = [],
                     Worktree = \<lparr>PathList = [], Submodules = subs\<rparr>,
                     Index = \<lparr>PathList = [], Submodules = []\<rparr>,
                     IndexWithWorktree = \<lparr>PathList = [], Submodules = subs\<rparr>\<rparr>"
  have q1: "\<not> IsAdded modifiedOnlySubmodule \<and> \<not> IsDeleted modifiedOnlySubmodule \<and>
     (\<not> IsModified modifiedOnlySubmodule \<or>
      (\<not> HasUntrackedChanges modifiedOnlySubmodule \<and> \<not> HasTrackedChanges modifiedOnlySubmodule \<and>
       \<not> IsCommitChanged modifiedOnlySubmodule))"
    by (simp add: modifiedOnlySubmodule_def)
  have q2: "\<not> IsAdded commitChangedOnlySubmodule \<and> \<not> IsDeleted commitChangedOnlySubmodule \<and>
     (\<not> IsModified commitChangedOnlySubmodule \<or>
      (\<not> HasUntrackedChanges commitChangedOnlySubmodule \<and>
       \<not> HasTrackedChanges commitChangedOnlySubmodule \<and>
       \<not> IsCommitChanged commitChangedOnlySubmodule))"
    by (simp add: commitChangedOnlySubmodule_def)
  have direct: "ValidateStatusResult (submoduleRepo [allFlagsSubmodule]) matchAll ?opts
                  = Some (SubmoduleHasUntrackedChangesError ''vendor/dep'')"
    by (simp add: ValidateStatusResult_def validateStatusResultSubmodules_def submoduleRepo_def
          matchAll_def allFlagsSubmodule_def)
  show ?thesis
    using ValidateStatusResult_skips_quiet_submodule
            [OF q1, of matchAll "[]" "[allFlagsSubmodule]"
               "submoduleRepo [modifiedOnlySubmodule, allFlagsSubmodule]"
               "?sr [modifiedOnlySubmodule, allFlagsSubmodule]" ?opts
               "\<lparr>PathList = [], Submodules = [modifiedOnlySubmodule, allFlagsSubmodule]\<rparr>"]
          ValidateStatusResult_skips_quiet_submodule
            [OF q2, of matchAll "[]" "[]"
               "submoduleRepo [commitChangedOnlySubmodule]"
               "?sr [commitChangedOnlySubmodule]" ?opts
               "\<lparr>PathList = [], Submodules = [commitChangedOnlySubmodule]\<rparr>"]
          direct
    by (simp add: submoduleRepo_def matchAll_def allFlagsSubmodule_def)
qed

section \<open>Facts about paths\<close>

lemma splitOn_no_sep: "sep \<notin> set s \<Longrightarrow> splitOn sep s = [s]"
  by (induction s) auto

lemma splitOn_not_Nil: "splitOn sep s \<noteq> []"
  by (induction s) (auto split: list.splits)

lemma splitOn_first: "sep \<notin> set a \<Longrightarrow> splitOn sep (a @ sep # b) = a # splitOn sep b"
  by (induction a) (auto simp: splitOn_not_Nil split: list.splits)

lemma SplitFilepath_not_Nil: "SplitFilepath path \<noteq> []"
  by (simp add: SplitFilepath_def splitOn_not_Nil)

lemma SplitFilepath_name: "isName p \<Longrightarrow> SplitFilepath p = [p]"
  by (simp add: SplitFilepath_def isName_def splitOn_no_sep)

lemma name_not_rooted: "isName p \<Longrightarrow> hd p \<noteq> CHR ''/''"
  by (cases p) (auto simp: isName_def)

lemma path_Clean_name: "isName p \<Longrightarrow> path_Clean p = p"
  using name_not_rooted [of p]
  by (auto simp: path_Clean_def isName_def splitOn_no_sep cleanStep_def Let_def)

lemma path_Join_empty_name: "isName p \<Longrightarrow> path_Join [] p = p"
  by (auto simp: path_Join_def path_Clean_name isName_def)

lemma path_Dir_name: "isName p \<Longrightarrow> path_Dir p = ''.''"
proof -
  assume "isName p"
  then have "CHR ''/'' \<notin> set (rev p)" by (simp add: isName_def)
  then have "dropWhile (\<lambda>c. c \<noteq> CHR ''/'') (rev p) = []" by (auto simp: dropWhile_eq_Nil_conv)
  then show ?thesis by (simp add: path_Dir_def path_Clean_def)
qed

lemma path_Join_dot_name: "isName q \<Longrightarrow> path_Join ''.'' q = q"
proof -
  assume n: "isName q"
  have "splitOn (CHR ''/'') (''.'' @ CHR ''/'' # q) = ''.'' # splitOn (CHR ''/'') q"
    by (rule splitOn_first) simp
  with n have "splitOn (CHR ''/'') (''./'' @ q) = [''.'', q]"
    by (simp add: isName_def splitOn_no_sep)
  with n show ?thesis
    by (auto simp: path_Join_def path_Clean_def cleanStep_def isName_def Let_def)
qed

lemma name_not_abs: "isName q \<Longrightarrow> \<not> path_IsAbs q"
  by (cases q) (auto simp: isName_def path_IsAbs_def)

lemma name_not_escaping: "isName q \<Longrightarrow> \<not> escapesRepository q"
proof
  assume n: "isName q" and e: "escapesRepository q"
  from n e have "take (length ''../'') q = ''../''"
    by (simp add: escapesRepository_def HasPrefix_def isName_def)
  then have "CHR ''/'' \<in> set (take (length ''../'') q)" by simp
  then have "CHR ''/'' \<in> set q" by (rule in_set_takeD)
  with n show False by (simp add: isName_def)
qed

section \<open>One step of the resolver\<close>

lemma resolveCommitFilePath_too_deep:
  "1000 < depth \<Longrightarrow>
   resolveCommitFilePath repo commit path depth checkSymlinkTargetFunc = Inl TooManyLevels"
  by (simp add: resolveCommitFilePath.simps)

lemma resolveCommitFilePath_fast:
  "depth \<le> 1000 \<Longrightarrow> entryMode repo commit path = Some mode \<Longrightarrow>
   mode \<noteq> Symlink \<Longrightarrow> \<not> IsMalformed mode \<Longrightarrow>
   resolveCommitFilePath repo commit path depth checkSymlinkTargetFunc = Inr path"
  by (auto simp: resolveCommitFilePath.simps entryMode_def split: sum.splits)

lemma resolveCommitFilePath_slow:
  "depth \<le> 1000 \<Longrightarrow> entryMode repo commit path = Some mode \<Longrightarrow>
   mode = Symlink \<or> IsMalformed mode \<Longrightarrow>
   resolveCommitFilePath repo commit path depth checkSymlinkTargetFunc
     = resolveLoop repo commit (depth + 1) checkSymlinkTargetFunc [] (SplitFilepath path)"
  by (auto simp: resolveCommitFilePath.simps entryMode_def split: sum.splits)

lemma resolveLoop_missing:
  "entryMode repo commit (path_Join resolvedPath part) = Some mode \<Longrightarrow> IsMalformed mode \<Longrightarrow>
   resolveLoop repo commit depth checkSymlinkTargetFunc resolvedPath (part # rest)
     = Inl (TreeEntryNotFoundInRepoErr (path_Join resolvedPath part))"
  by (auto simp: entryMode_def Let_def split: sum.splits)

lemma resolveLoop_plain:
  "entryMode repo commit (path_Join resolvedPath part) = Some mode \<Longrightarrow>
   mode \<noteq> Symlink \<Longrightarrow> \<not> IsMalformed mode \<Longrightarrow>
   resolveLoop repo commit depth checkSymlinkTargetFunc resolvedPath (part # rest)
     = resolveLoop repo commit depth checkSymlinkTargetFunc (path_Join resolvedPath part) rest"
  by (auto simp: entryMode_def Let_def split: sum.splits)

lemma resolveLoop_forbidden:
  "entryMode repo commit (path_Join resolvedPath part) = Some Symlink \<Longrightarrow>
   ReadCommitTreeEntryContent repo commit (path_Join resolvedPath part) = Inr link \<Longrightarrow>
   path_IsAbs link \<or>
     escapesRepository (path_Join (path_Dir (path_Join resolvedPath part)) link) \<Longrightarrow>
   resolveLoop repo commit depth checkSymlinkTargetFunc resolvedPath (part # rest)
     = Inl (TreeEntryNotFoundInRepoErr link)"
  by (auto simp: entryMode_def escapesRepository_def Let_def split: sum.splits)

lemma resolveLoop_rejected:
  "entryMode repo commit (path_Join resolvedPath part) = Some Symlink \<Longrightarrow>
   ReadCommitTreeEntryContent repo commit (path_Join resolvedPath part) = Inr link \<Longrightarrow>
   \<not> path_IsAbs link \<Longrightarrow>
   \<not> escapesRepository (path_Join (path_Dir (path_Join resolvedPath part)) link) \<Longrightarrow>
   hookVerdict checkSymlinkTargetFunc
     (path_Join (path_Dir (path_Join resolvedPath part)) link) = Some err \<Longrightarrow>
   resolveLoop repo commit depth checkSymlinkTargetFunc resolvedPath (part # rest) = Inl err"
  by (auto simp: entryMode_def escapesRepository_def hookVerdict_def Let_def split: sum.splits)

lemma resolveLoop_follow:
  "entryMode repo commit (path_Join resolvedPath part) = Some Symlink \<Longrightarrow>
   ReadCommitTreeEntryContent repo commit (path_Join resolvedPath part) = Inr link \<Longrightarrow>
   \<not> path_IsAbs link \<Longrightarrow>
   \<not> escapesRepository (path_Join (path_Dir (path_Join resolvedPath part)) link) \<Longrightarrow>
   hookVerdict checkSymlinkTargetFunc
     (path_Join (path_Dir (path_Join resolvedPath part)) link) = None \<Longrightarrow>
   resolveLoop repo commit depth checkSymlinkTargetFunc resolvedPath (part # rest)
     = (case resolveCommitFilePath repo commit
               (path_Join (path_Dir (path_Join resolvedPath part)) link) depth
               checkSymlinkTargetFunc of
          Inl err \<Rightarrow> Inl err
        | Inr resolvedTarget \<Rightarrow>
            resolveLoop repo commit depth checkSymlinkTargetFunc resolvedTarget rest)"
  by (auto simp: entryMode_def escapesRepository_def hookVerdict_def Let_def split: sum.splits)

lemma resolve_all_dom: "resolveCommitFilePath_resolveLoop_dom x"
proof -
  have "All resolveCommitFilePath_resolveLoop_dom"
    by (rule "resolveCommitFilePath_resolveLoop.termination"
          [where R = "measures
             [\<lambda>x. case x of Inl (repo, commit, path, depth, chk) \<Rightarrow> nat (1002 - depth)
                           | Inr (repo, commit, depth, chk, resolvedPath, parts) \<Rightarrow> nat (1002 - depth),
              \<lambda>x. case x of Inl _ \<Rightarrow> 0
                           | Inr (repo, commit, depth, chk, resolvedPath, parts) \<Rightarrow> Suc (length parts)]"])
       auto
  then show ?thesis by simp
qed

section \<open>Chains of symlinks\<close>

lemma chain_step:
  assumes "isName p" and "isName q" and "depth \<le> 1000"
    and "entryMode repo commit p = Some Symlink"
    and "ReadCommitTreeEntryContent repo commit p = Inr q"
  shows "resolveCommitFilePath repo commit p depth None
           = resolveCommitFilePath repo commit q (depth + 1) None"
proof -
  have "resolveCommitFilePath repo commit p depth None
          = resolveLoop repo commit (depth + 1) None [] [p]"
    using assms by (simp add: resolveCommitFilePath_slow SplitFilepath_name)
  also have "\<dots> = (case resolveCommitFilePath repo commit q (depth + 1) None of
                      Inl err \<Rightarrow> Inl err
                    | Inr resolvedTarget \<Rightarrow> resolveLoop repo commit (depth + 1) None resolvedTarget [])"
    using assms resolveLoop_follow [of repo commit "[]" p q None "depth + 1" "[]"]
    by (simp add: path_Join_empty_name path_Dir_name path_Join_dot_name name_not_abs
          name_not_escaping hookVerdict_def)
  also have "\<dots> = resolveCommitFilePath repo commit q (depth + 1) None"
    by (simp split: sum.splits)
  finally show ?thesis .
qed

lemma symlinkChain_tail:
  "symlinkChain repo commit name (Suc n) \<Longrightarrow> symlinkChain repo commit (\<lambda>i. name (Suc i)) n"
  by (auto simp: symlinkChain_def)

lemma chain_resolves:
  "symlinkChain repo commit name n \<Longrightarrow> entryMode repo commit (name n) = Some mode \<Longrightarrow>
   mode \<noteq> Symlink \<Longrightarrow> \<not> IsMalformed mode \<Longrightarrow> depth + int n \<le> 1000 \<Longrightarrow>
   resolveCommitFilePath repo commit (name 0) depth None = Inr (name n)"
proof (induction n arbitrary: name depth)
  case 0
  then show ?case by (simp add: resolveCommitFilePath_fast)
next
  case (Suc n)
  from Suc.prems(1) have names: "isName (name 0)" "isName (name (Suc 0))"
    and link: "entryMode repo commit (name 0) = Some Symlink"
              "ReadCommitTreeEntryContent repo commit (name 0) = Inr (name (Suc 0))"
    by (auto simp: symlinkChain_def)
  from Suc.prems(5) have d: "depth \<le> 1000" "(depth + 1) + int n \<le> 1000" by simp_all
  have "resolveCommitFilePath repo commit (name 0) depth None
          = resolveCommitFilePath repo commit (name (Suc 0)) (depth + 1) None"
    using names d(1) link by (rule chain_step)
  also have "\<dots> = Inr (name (Suc n))"
    using Suc.IH [of "\<lambda>i. name (Suc i)" "depth + 1"] symlinkChain_tail [OF Suc.prems(1)]
      Suc.prems(2,3,4) d(2) by simp
  finally show ?case .
qed

lemma chain_too_long:
  "symlinkChain repo commit name n \<Longrightarrow> 1000 < depth + int n \<Longrightarrow>
   resolveCommitFilePath repo commit (name 0) depth None = Inl TooManyLevels"
proof (induction n arbitrary: name depth)
  case 0
  then show ?case by (simp add: resolveCommitFilePath_too_deep)
next
  case (Suc n)
  show ?case
  proof (cases "1000 < depth")
    case True
    then show ?thesis by (rule resolveCommitFilePath_too_deep)
  next
    case False
    then have d: "depth \<le> 1000" by simp
    from Suc.prems(1) have names: "isName (name 0)" "isName (name (Suc 0))"
      and link: "entryMode repo commit (name 0) = Some Symlink"
                "ReadCommitTreeEntryContent repo commit (name 0) = Inr (name (Suc 0))"
      by (auto simp: symlinkChain_def)
    have "resolveCommitFilePath repo commit (name 0) depth None
            = resolveCommitFilePath repo commit (name (Suc 0)) (depth + 1) None"
      using names d link by (rule chain_step)
    also have "\<dots> = Inl TooManyLevels"
      using Suc.IH [of "\<lambda>i. name (Suc i)" "depth + 1"] symlinkChain_tail [OF Suc.prems(1)]
        Suc.prems(2) by simp
    finally show ?thesis .
  qed
qed

lemma unaryName_isName: "isName (unaryName i)"
  by (simp add: unaryName_def isName_def)

lemma chainRepo_chain: "symlinkChain (chainRepo n) commit unaryName n"
  by (simp add: symlinkChain_def unaryName_isName)
     (simp add: chainRepo_def entryMode_def getCommitTreeEntry_def
        ReadCommitTreeEntryContent_def unaryName_def)

lemma chainRepo_end: "entryMode (chainRepo n) commit (unaryName n) = Some Regular"
  by (simp add: chainRepo_def entryMode_def getCommitTreeEntry_def unaryName_def)

lemma loopRepo_chain: "symlinkChain loopRepo commit (\<lambda>i. ''self'') n"
  by (simp add: symlinkChain_def isName_def loopRepo_def entryMode_def getCommitTreeEntry_def
        ReadCommitTreeEntryContent_def)

text \<open>
  C3. Resolution terminates on every input: each call of \<^verbatim>\<open>resolveCommitFilePath\<close> lies in the
  domain on which the recursion is well-founded (the depth only grows towards 1001 and
  each loop consumes its path parts). A call entered with a depth above 1000 fails with
  the too-many-levels error. Every hop of a chain of nested symlinks costs exactly one
  level of the counter handed down from the outermost call: a chain of \<open>n\<close> links
  entered at \<open>depth\<close> resolves to its end when \<open>depth + n \<le> 1000\<close> and fails with
  too-many-levels when \<open>depth + n > 1000\<close>. So from the entry point, which starts at 0, a
  chain resolves for every \<open>n \<le> 1000\<close> and fails for every \<open>n > 1000\<close>; the names of a
  chain need not differ, so this holds with or without a cycle.
\<close>

theorem resolveCommitFilePath_depth_limit:
  "resolveCommitFilePath_resolveLoop_dom (Inl (repo, commit, path, depth, checkSymlinkTargetFunc))
   \<and> (1000 < depth \<longrightarrow>
        resolveCommitFilePath repo commit path depth checkSymlinkTargetFunc = Inl TooManyLevels)
   \<and> (symlinkChain repo commit name n \<and> entryMode repo commit (name n) = Some mode \<and>
        mode \<noteq> Symlink \<and> \<not> IsMalformed mode \<and> depth + int n \<le> 1000 \<longrightarrow>
        resolveCommitFilePath repo commit (name 0) depth None = Inr (name n))
   \<and> (symlinkChain repo commit name n \<and> 1000 < depth + int n \<longrightarrow>
        resolveCommitFilePath repo commit (name 0) depth None = Inl TooManyLevels)
   \<and> (symlinkChain repo commit name n \<and> entryMode repo commit (name n) = Some mode \<and>
        mode \<noteq> Symlink \<and> \<not> IsMalformed mode \<and> n \<le> 1000 \<longrightarrow>
        ResolveCommitFilePath repo commit (name 0) = Inr (name n))
   \<and> (symlinkChain repo commit name n \<and> 1000 < n \<longrightarrow>
        ResolveCommitFilePath repo commit (name 0) = Inl TooManyLevels)"
proof (intro conjI impI)
  show "resolveCommitFilePath_resolveLoop_dom
          (Inl (repo, commit, path, depth, checkSymlinkTargetFunc))"
    by (rule resolve_all_dom)
next
  assume "1000 < depth"
  then show "resolveCommitFilePath repo commit path depth checkSymlinkTargetFunc
               = Inl TooManyLevels"
    by (rule resolveCommitFilePath_too_deep)
next
  assume "symlinkChain repo commit name n \<and> entryMode repo commit (name n) = Some mode \<and>
          mode \<noteq> Symlink \<and> \<not> IsMalformed mode \<and> depth + int n \<le> 1000"
  then show "resolveCommitFilePath repo commit (name 0) depth None = Inr (name n)"
    by (simp add: chain_resolves)
next
  assume "symlinkChain repo commit name n \<and> 1000 < depth + int n"
  then show "resolveCommitFilePath repo commit (name 0) depth None = Inl TooManyLevels"
    by (blast intro: chain_too_long)
next
  assume "symlinkChain repo commit name n \<and> entryMode repo commit (name n) = Some mode \<and>
          mode \<noteq> Symlink \<and> \<not> IsMalformed mode \<and> n \<le> 1000"
  then show "ResolveCommitFilePath repo commit (name 0) = Inr (name n)"
    by (simp add: ResolveCommitFilePath_def chain_resolves)
next
  assume "symlinkChain repo commit name n \<and> 1000 < n"
  then have "symlinkChain repo commit name n" and "1000 < 0 + int n" by simp_all
  then show "ResolveCommitFilePath repo commit (name 0) = Inl TooManyLevels"
    unfolding ResolveCommitFilePath_def by (rule chain_too_long)
qed

text \<open>
  The instances: the synthetic chain of exactly 1000 links resolves to the regular file
  at its end, the chain of exactly 1001 links fails, and so does the cycle.
\<close>

theorem resolveCommitFilePath_depth_limit_witness:
  "ResolveCommitFilePath (chainRepo 1000) ''c0ffee'' ''l'' = Inr (replicate 1001 (CHR ''l''))
   \<and> ResolveCommitFilePath (chainRepo 1001) ''c0ffee'' ''l'' = Inl TooManyLevels
   \<and> ResolveCommitFilePath loopRepo ''c0ffee'' ''self'' = Inl TooManyLevels
   \<and> resolveCommitFilePath loopRepo ''c0ffee'' ''self'' 1001 None = Inl TooManyLevels"
proof -
  have ok: "ResolveCommitFilePath (chainRepo 1000) ''c0ffee'' (unaryName 0) = Inr (unaryName 1000)"
    using resolveCommitFilePath_depth_limit
            [of "chainRepo 1000" "''c0ffee''" "''l''" 0 None unaryName 1000 Regular]
          chainRepo_chain [of 1000 "''c0ffee''"] chainRepo_end [of 1000 "''c0ffee''"]
    by simp
  have long: "ResolveCommitFilePath (chainRepo 1001) ''c0ffee'' (unaryName 0) = Inl TooManyLevels"
    using resolveCommitFilePath_depth_limit
            [of "chainRepo 1001" "''c0ffee''" "''l''" 0 None unaryName 1001 Regular]
          chainRepo_chain [of 1001 "''c0ffee''"]
    by simp
  have cycle: "ResolveCommitFilePath loopRepo ''c0ffee'' ''self'' = Inl TooManyLevels
               \<and> resolveCommitFilePath loopRepo ''c0ffee'' ''self'' 1001 None = Inl TooManyLevels"
    using resolveCommitFilePath_depth_limit
            [of loopRepo "''c0ffee''" "''self''" 1001 None "\<lambda>i. ''self''" 1001 Regular]
          loopRepo_chain [of "''c0ffee''" 1001]
    by simp
  have n0: "unaryName 0 = ''l''" by (simp add: unaryName_def)
  have n1000: "unaryName 1000 = replicate 1001 (CHR ''l'')" by (simp add: unaryName_def)
  from ok long cycle show ?thesis by (simp add: n0 n1000)
qed

section \<open>What a resolved path names\<close>

lemma isPlainEntry_mode:
  "isPlainEntry repo commit path \<longleftrightarrow>
     (\<exists>mode. entryMode repo commit path = Some mode \<and> mode \<noteq> Symlink \<and> \<not> IsMalformed mode)"
  by (auto simp: isPlainEntry_def split: option.splits)

lemma resolve_result_plain:
  "\<forall>r. resolveCommitFilePath repo commit path depth checkSymlinkTargetFunc = Inr r
      \<longrightarrow> isPlainEntry repo commit r"
  "\<forall>r. resolveLoop repo commit depth checkSymlinkTargetFunc resolvedPath parts = Inr r
      \<longrightarrow> (parts = [] \<and> r = resolvedPath) \<or> isPlainEntry repo commit r"
proof (induction repo commit path depth checkSymlinkTargetFunc
         and repo commit depth checkSymlinkTargetFunc resolvedPath parts
       rule: resolveCommitFilePath_resolveLoop.induct)
  case (1 repo commit path depth checkSymlinkTargetFunc)
  then show ?case
    by (auto simp: resolveCommitFilePath.simps [of repo commit path] isPlainEntry_def
          entryMode_def SplitFilepath_not_Nil split: sum.splits if_splits)
next
  case (2 repo commit depth checkSymlinkTargetFunc resolvedPath)
  then show ?case by simp
next
  case (3 repo commit depth checkSymlinkTargetFunc resolvedPath part rest)
  let ?p = "path_Join resolvedPath part"
  show ?case
  proof (intro allI impI)
    fix r
    assume res: "resolveLoop repo commit depth checkSymlinkTargetFunc resolvedPath (part # rest)
                   = Inr r"
    then obtain b where b: "getCommitTreeEntry repo commit ?p = Inr b"
      by (cases "getCommitTreeEntry repo commit ?p") (simp_all add: Let_def)
    from res b have wf: "\<not> IsMalformed (Mode b)"
      by (auto simp: Let_def split: if_splits)
    have "isPlainEntry repo commit r"
    proof (cases "Mode b = Symlink")
      case False
      with b wf have plain: "isPlainEntry repo commit ?p"
        by (simp add: isPlainEntry_def entryMode_def)
      from res b wf False
      have "resolveLoop repo commit depth checkSymlinkTargetFunc ?p rest = Inr r"
        by (simp add: Let_def)
      with "3.IH"(3) [OF refl b wf False] plain show ?thesis by auto
    next
      case True
      from res b wf True obtain link
        where link: "ReadCommitTreeEntryContent repo commit ?p = Inr link"
        by (cases "ReadCommitTreeEntryContent repo commit ?p") (simp_all add: Let_def)
      let ?t = "path_Join (path_Dir ?p) link"
      from res b wf True link have abs: "\<not> path_IsAbs link"
        by (auto simp: Let_def split: if_splits)
      from res b wf True link abs have esc: "\<not> (?t = ''..'' \<or> HasPrefix ?t ''../'')"
        by (auto simp: Let_def split: if_splits)
      from res b wf True link abs esc
      have hook: "(case checkSymlinkTargetFunc of None \<Rightarrow> None | Some check \<Rightarrow> check ?t) = None"
        by (auto simp: Let_def split: if_splits option.splits)
      from res b wf True link abs esc hook obtain target
        where target: "resolveCommitFilePath repo commit ?t depth checkSymlinkTargetFunc
                         = Inr target"
          and loop: "resolveLoop repo commit depth checkSymlinkTargetFunc target rest = Inr r"
        by (cases "resolveCommitFilePath repo commit ?t depth checkSymlinkTargetFunc")
           (auto simp: Let_def)
      from "3.IH"(1) [OF refl b wf True link abs refl esc hook] target
      have "isPlainEntry repo commit target" by simp
      with "3.IH"(2) [OF refl b wf True link abs refl esc hook target] loop
      show ?thesis by auto
    qed
    then show "(part # rest = [] \<and> r = resolvedPath) \<or> isPlainEntry repo commit r" by simp
  qed
qed

lemma resolveCommitFilePath_plain:
  "depth \<le> 1000 \<Longrightarrow> isPlainEntry repo commit path \<Longrightarrow>
   resolveCommitFilePath repo commit path depth checkSymlinkTargetFunc = Inr path"
  by (auto simp: isPlainEntry_mode resolveCommitFilePath_fast)

text \<open>
  C7. A path whose exact tree entry is well-formed and not a symlink resolves to itself.
  Every successfully resolved path names such an entry, so resolving a resolved path
  returns it unchanged.
\<close>

theorem ResolveCommitFilePath_idempotent:
  "(isPlainEntry repo commit path \<longrightarrow> ResolveCommitFilePath repo commit path = Inr path)
   \<and> (ResolveCommitFilePath repo commit path = Inr resolvedPath \<longrightarrow>
        isPlainEntry repo commit resolvedPath \<and>
        ResolveCommitFilePath repo commit resolvedPath = Inr resolvedPath)"
  using resolve_result_plain(1) [of repo commit path 0 None]
  by (simp add: ResolveCommitFilePath_def resolveCommitFilePath_plain)

lemma linkRepo_plain: "isPlainEntry linkRepo commit ''d/b''"
  by (simp add: isPlainEntry_def entryMode_def getCommitTreeEntry_def linkRepo_def)

lemmas model_defs =
  getCommitTreeEntry_def ReadCommitTreeEntryContent_def SplitFilepath_def path_Join_def
  path_Clean_def cleanStep_def path_Dir_def path_IsAbs_def HasPrefix_def Let_def

lemma linkRepo_a_b: "resolveCommitFilePath linkRepo ''c0ffee'' ''a/b'' 0 None = Inr ''d/b''"
  by (simp add: resolveCommitFilePath.simps linkRepo_def model_defs)

theorem ResolveCommitFilePath_idempotent_witness:
  "ResolveCommitFilePath linkRepo ''c0ffee'' ''d/b'' = Inr ''d/b''
   \<and> ResolveCommitFilePath linkRepo ''c0ffee'' ''a/b'' = Inr ''d/b''"
  using ResolveCommitFilePath_idempotent [of linkRepo "''c0ffee''" "''d/b''" "''d/b''"]
        ResolveCommitFilePath_idempotent [of linkRepo "''c0ffee''" "''a/b''" "''d/b''"]
        linkRepo_plain [of "''c0ffee''"] linkRepo_a_b
  by (simp add: ResolveCommitFilePath_def)

section \<open>Properties of the existence probes\<close>

lemma expectedFileModeLoop_set:
  "expectedFileModeLoop expectedFileModeList mode \<longleftrightarrow> mode \<in> set expectedFileModeList"
  by (induction expectedFileModeList) auto

lemma checkCommitFileMode_not_found:
  "ResolveCommitFilePath repo commit path = Inl err \<Longrightarrow> IsTreeEntryNotFoundInRepoErr err \<Longrightarrow>
   checkCommitFileMode repo commit path expectedFileModeList = Inr False"
  by (simp add: checkCommitFileMode_def)

lemma checkCommitFileMode_cases:
  "checkCommitFileMode repo commit path expectedFileModeList =
     (case resolveCommitFilePath repo commit path 0 None of
        Inl err \<Rightarrow>
          if IsTreeEntryNotFoundInRepoErr err then Inr False
          else Inl (UnableToResolveCommitFile path err)
      | Inr resolvedPath \<Rightarrow>
          (case entryMode repo commit resolvedPath of
             None \<Rightarrow> Inr False
           | Some mode \<Rightarrow> Inr (mode \<in> set expectedFileModeList)))"
proof (cases "resolveCommitFilePath repo commit path 0 None")
  case (Inl err)
  then show ?thesis by (simp add: checkCommitFileMode_def ResolveCommitFilePath_def)
next
  case (Inr resolvedPath)
  with resolve_result_plain(1) [of repo commit path 0 None]
  have "isPlainEntry repo commit resolvedPath" by simp
  then obtain lsTreeEntry where "getCommitTreeEntry repo commit resolvedPath = Inr lsTreeEntry"
    by (auto simp: isPlainEntry_def entryMode_def split: sum.splits)
  with Inr show ?thesis
    by (simp add: checkCommitFileMode_def ResolveCommitFilePath_def entryMode_def
          expectedFileModeLoop_set)
qed

text \<open>
  C6. The probes are decided by the resolution of the path alone. When resolution
  reports an error of the not-found kind, both probes return \<^verbatim>\<open>false\<close> and no error. When
  resolution succeeds, the tree has an entry at the resolved path, and the file probe
  answers whether its mode is Regular, Deprecated or Executable, the directory probe
  whether it is Dir or Submodule. Any other resolution error is returned, wrapped, as an
  error. So the file probe returns \<^verbatim>\<open>true\<close> exactly when resolution succeeds on an entry whose
  mode is Regular, Deprecated or Executable, and the directory probe exactly when it
  succeeds on an entry whose mode is Dir or Submodule.
\<close>

theorem existence_probes:
  "(ResolveCommitFilePath repo commit path = Inl err \<and> IsTreeEntryNotFoundInRepoErr err \<longrightarrow>
      IsCommitFileExist repo commit path = Inr False \<and>
      IsCommitDirectoryExist repo commit path = Inr False)
   \<and> (ResolveCommitFilePath repo commit path = Inr resolvedPath \<and>
       getCommitTreeEntry repo commit resolvedPath = Inr lsTreeEntry \<longrightarrow>
      IsCommitFileExist repo commit path
        = Inr (Mode lsTreeEntry \<in> {Regular, Deprecated, Executable}) \<and>
      IsCommitDirectoryExist repo commit path
        = Inr (Mode lsTreeEntry \<in> {Dir, Submodule}))
   \<and> (ResolveCommitFilePath repo commit path = Inr resolvedPath \<longrightarrow>
      (\<exists>mode. entryMode repo commit resolvedPath = Some mode \<and>
         IsCommitFileExist repo commit path = Inr (mode \<in> {Regular, Deprecated, Executable}) \<and>
         IsCommitDirectoryExist repo commit path = Inr (mode \<in> {Dir, Submodule})))
   \<and> (ResolveCommitFilePath repo commit path = Inl err \<and> \<not> IsTreeEntryNotFoundInRepoErr err \<longrightarrow>
      IsCommitFileExist repo commit path = Inl (UnableToResolveCommitFile path err) \<and>
      IsCommitDirectoryExist repo commit path = Inl (UnableToResolveCommitFile path err))
   \<and> (IsCommitFileExist repo commit path = Inr True \<longleftrightarrow>
        (\<exists>r mode. ResolveCommitFilePath repo commit path = Inr r \<and>
           entryMode repo commit r = Some mode \<and> mode \<in> {Regular, Deprecated, Executable}))
   \<and> (IsCommitDirectoryExist repo commit path = Inr True \<longleftrightarrow>
        (\<exists>r mode. ResolveCommitFilePath repo commit path = Inr r \<and>
           entryMode repo commit r = Some mode \<and> mode \<in> {Dir, Submodule}))"
proof -
  have plain: "\<And>r. resolveCommitFilePath repo commit path 0 None = Inr r \<Longrightarrow>
                 \<exists>mode. entryMode repo commit r = Some mode"
    using resolve_result_plain(1) [of repo commit path 0 None]
    by (auto simp: isPlainEntry_mode)
  have fl: "IsCommitFileExist repo commit path = Inr True \<longleftrightarrow>
        (\<exists>r mode. ResolveCommitFilePath repo commit path = Inr r \<and>
           entryMode repo commit r = Some mode \<and> mode \<in> {Regular, Deprecated, Executable})"
    by (auto simp: IsCommitFileExist_def isCommitFileExist_def checkCommitFileMode_cases
          ResolveCommitFilePath_def split: sum.splits option.splits if_splits)
  have dr: "IsCommitDirectoryExist repo commit path = Inr True \<longleftrightarrow>
        (\<exists>r mode. ResolveCommitFilePath repo commit path = Inr r \<and>
           entryMode repo commit r = Some mode \<and> mode \<in> {Dir, Submodule})"
    by (auto simp: IsCommitDirectoryExist_def isCommitDirectoryExist_def
          checkCommitFileMode_cases ResolveCommitFilePath_def
          split: sum.splits option.splits if_splits)
  have rest: "(ResolveCommitFilePath repo commit path = Inl err \<and> IsTreeEntryNotFoundInRepoErr err \<longrightarrow>
      IsCommitFileExist repo commit path = Inr False \<and>
      IsCommitDirectoryExist repo commit path = Inr False)
   \<and> (ResolveCommitFilePath repo commit path = Inr resolvedPath \<and>
       getCommitTreeEntry repo commit resolvedPath = Inr lsTreeEntry \<longrightarrow>
      IsCommitFileExist repo commit path
        = Inr (Mode lsTreeEntry \<in> {Regular, Deprecated, Executable}) \<and>
      IsCommitDirectoryExist repo commit path
        = Inr (Mode lsTreeEntry \<in> {Dir, Submodule}))
   \<and> (ResolveCommitFilePath repo commit path = Inr resolvedPath \<longrightarrow>
      (\<exists>mode. entryMode repo commit resolvedPath = Some mode \<and>
         IsCommitFileExist repo commit path = Inr (mode \<in> {Regular, Deprecated, Executable}) \<and>
         IsCommitDirectoryExist repo commit path = Inr (mode \<in> {Dir, Submodule})))
   \<and> (ResolveCommitFilePath repo commit path = Inl err \<and> \<not> IsTreeEntryNotFoundInRepoErr err \<longrightarrow>
      IsCommitFileExist repo commit path = Inl (UnableToResolveCommitFile path err) \<and>
      IsCommitDirectoryExist repo commit path = Inl (UnableToResolveCommitFile path err))"
    using plain [of resolvedPath]
    by (auto simp: IsCommitFileExist_def IsCommitDirectoryExist_def isCommitFileExist_def
          isCommitDirectoryExist_def checkCommitFileMode_cases ResolveCommitFilePath_def
          entryMode_def)
  from rest fl dr show ?thesis by blast
qed

lemma linkRepo_gone:
  "resolveCommitFilePath linkRepo ''c0ffee'' ''gone'' 0 None
     = Inl (TreeEntryNotFoundInRepoErr ''gone'')"
  by (simp add: resolveCommitFilePath.simps linkRepo_def model_defs)

lemma loopRepo_self:
  "resolveCommitFilePath loopRepo ''c0ffee'' ''self'' 0 None = Inl TooManyLevels"
  using chain_too_long [of loopRepo "''c0ffee''" "\<lambda>i. ''self''" 1001 0]
  by (simp add: loopRepo_chain)

text \<open>
  The instances: a missing entry, the regular file behind the symlinked directory, the
  directory itself, and the cycle, whose too-many-levels error the probes return wrapped.
\<close>

theorem existence_probes_witness:
  "IsCommitFileExist linkRepo ''c0ffee'' ''gone'' = Inr False
   \<and> IsCommitDirectoryExist linkRepo ''c0ffee'' ''gone'' = Inr False
   \<and> IsCommitFileExist linkRepo ''c0ffee'' ''a/b'' = Inr True
   \<and> IsCommitDirectoryExist linkRepo ''c0ffee'' ''a/b'' = Inr False
   \<and> IsCommitDirectoryExist linkRepo ''c0ffee'' ''a'' = Inr True
   \<and> IsCommitFileExist loopRepo ''c0ffee'' ''self''
       = Inl (UnableToResolveCommitFile ''self'' TooManyLevels)
   \<and> IsCommitDirectoryExist loopRepo ''c0ffee'' ''self''
       = Inl (UnableToResolveCommitFile ''self'' TooManyLevels)"
proof -
  have entry: "getCommitTreeEntry linkRepo ''c0ffee'' ''d/b''
                 = Inr \<lparr>FullFilepath = ''d/b'', Mode = Regular\<rparr>"
              "getCommitTreeEntry linkRepo ''c0ffee'' ''d''
                 = Inr \<lparr>FullFilepath = ''d'', Mode = Dir\<rparr>"
    by (simp_all add: getCommitTreeEntry_def linkRepo_def)
  have a: "resolveCommitFilePath linkRepo ''c0ffee'' ''a'' 0 None = Inr ''d''"
    by (simp add: resolveCommitFilePath.simps linkRepo_def model_defs)
  have gone: "IsCommitFileExist linkRepo ''c0ffee'' ''gone'' = Inr False
              \<and> IsCommitDirectoryExist linkRepo ''c0ffee'' ''gone'' = Inr False"
    using existence_probes [of linkRepo "''c0ffee''" "''gone''"
                               "TreeEntryNotFoundInRepoErr ''gone''"]
          linkRepo_gone
    by (simp add: ResolveCommitFilePath_def)
  have fl: "IsCommitFileExist linkRepo ''c0ffee'' ''a/b'' = Inr True
              \<and> IsCommitDirectoryExist linkRepo ''c0ffee'' ''a/b'' = Inr False"
    using existence_probes [of linkRepo "''c0ffee''" "''a/b''" _ "''d/b''"
                               "\<lparr>FullFilepath = ''d/b'', Mode = Regular\<rparr>"]
          linkRepo_a_b entry(1)
    by (simp add: ResolveCommitFilePath_def)
  have dr: "IsCommitDirectoryExist linkRepo ''c0ffee'' ''a'' = Inr True"
    using existence_probes [of linkRepo "''c0ffee''" "''a''" _ "''d''"
                               "\<lparr>FullFilepath = ''d'', Mode = Dir\<rparr>"]
          a entry(2)
    by (simp add: ResolveCommitFilePath_def)
  have cycle: "IsCommitFileExist loopRepo ''c0ffee'' ''self''
                 = Inl (UnableToResolveCommitFile ''self'' TooManyLevels)
               \<and> IsCommitDirectoryExist loopRepo ''c0ffee'' ''self''
                 = Inl (UnableToResolveCommitFile ''self'' TooManyLevels)"
    using existence_probes [of loopRepo "''c0ffee''" "''self''" TooManyLevels]
          loopRepo_self
    by (simp add: ResolveCommitFilePath_def)
  from gone fl dr cycle show ?thesis by simp
qed

section \<open>The walk after a symlink\<close>

lemma resolveLoop_plainBelow:
  "plainBelow repo commit prefix rest \<Longrightarrow>
   resolveLoop repo commit depth checkSymlinkTargetFunc prefix rest
     = Inr (foldl path_Join prefix rest)"
proof (induction rest arbitrary: prefix)
  case Nil
  then show ?case by simp
next
  case (Cons part rest)
  from Cons.prems obtain mode
    where "entryMode repo commit (path_Join prefix part) = Some mode"
      and "mode \<noteq> Symlink" and "\<not> IsMalformed mode"
    by (auto simp: isPlainEntry_mode)
  then have "resolveLoop repo commit depth checkSymlinkTargetFunc prefix (part # rest)
               = resolveLoop repo commit depth checkSymlinkTargetFunc (path_Join prefix part) rest"
    by (rule resolveLoop_plain)
  with Cons show ?case by simp
qed

text \<open>
  C2, as the code has it. When the walk follows a symlink, the resolution of the link's
  target replaces the accumulated prefix, and the walk goes on from there over the
  remaining parts of the original path, each joined to what has been accumulated. When
  those parts name plain entries, the resolved path is the resolved target with the
  remaining parts appended.
\<close>

theorem resolveLoop_continues_after_symlink:
  "entryMode repo commit (path_Join resolvedPath part) = Some Symlink \<and>
   ReadCommitTreeEntryContent repo commit (path_Join resolvedPath part) = Inr link \<and>
   \<not> path_IsAbs link \<and>
   resolvedLink = path_Join (path_Dir (path_Join resolvedPath part)) link \<and>
   \<not> escapesRepository resolvedLink \<and>
   hookVerdict checkSymlinkTargetFunc resolvedLink = None \<and>
   resolveCommitFilePath repo commit resolvedLink depth checkSymlinkTargetFunc
     = Inr resolvedTarget
   \<longrightarrow>
     resolveLoop repo commit depth checkSymlinkTargetFunc resolvedPath (part # rest)
       = resolveLoop repo commit depth checkSymlinkTargetFunc resolvedTarget rest
     \<and> (plainBelow repo commit resolvedTarget rest \<longrightarrow>
          resolveLoop repo commit depth checkSymlinkTargetFunc resolvedPath (part # rest)
            = Inr (foldl path_Join resolvedTarget rest))"
proof (intro impI, elim conjE)
  assume a: "entryMode repo commit (path_Join resolvedPath part) = Some Symlink"
    "ReadCommitTreeEntryContent repo commit (path_Join resolvedPath part) = Inr link"
    "\<not> path_IsAbs link"
    "resolvedLink = path_Join (path_Dir (path_Join resolvedPath part)) link"
    "\<not> escapesRepository resolvedLink"
    "hookVerdict checkSymlinkTargetFunc resolvedLink = None"
    "resolveCommitFilePath repo commit resolvedLink depth checkSymlinkTargetFunc
       = Inr resolvedTarget"
  have step: "resolveLoop repo commit depth checkSymlinkTargetFunc resolvedPath (part # rest)
                = resolveLoop repo commit depth checkSymlinkTargetFunc resolvedTarget rest"
    using a resolveLoop_follow [of repo commit resolvedPath part link checkSymlinkTargetFunc
                                   depth rest]
    by simp
  show "resolveLoop repo commit depth checkSymlinkTargetFunc resolvedPath (part # rest)
          = resolveLoop repo commit depth checkSymlinkTargetFunc resolvedTarget rest
        \<and> (plainBelow repo commit resolvedTarget rest \<longrightarrow>
             resolveLoop repo commit depth checkSymlinkTargetFunc resolvedPath (part # rest)
               = Inr (foldl path_Join resolvedTarget rest))"
  proof (intro conjI impI)
    show "resolveLoop repo commit depth checkSymlinkTargetFunc resolvedPath (part # rest)
            = resolveLoop repo commit depth checkSymlinkTargetFunc resolvedTarget rest"
      by (rule step)
  next
    assume "plainBelow repo commit resolvedTarget rest"
    then show "resolveLoop repo commit depth checkSymlinkTargetFunc resolvedPath (part # rest)
                 = Inr (foldl path_Join resolvedTarget rest)"
      unfolding step by (rule resolveLoop_plainBelow)
  qed
qed

lemma linkRepo_d: "resolveCommitFilePath linkRepo ''c0ffee'' ''d'' 1 None = Inr ''d''"
  by (simp add: resolveCommitFilePath.simps linkRepo_def model_defs)

theorem resolveLoop_continues_after_symlink_witness:
  "resolveLoop linkRepo ''c0ffee'' 1 None [] [''a'', ''b''] = Inr ''d/b''"
proof -
  have h: "entryMode linkRepo ''c0ffee'' (path_Join [] ''a'') = Some Symlink \<and>
     ReadCommitTreeEntryContent linkRepo ''c0ffee'' (path_Join [] ''a'') = Inr ''d'' \<and>
     \<not> path_IsAbs ''d'' \<and>
     ''d'' = path_Join (path_Dir (path_Join [] ''a'')) ''d'' \<and>
     \<not> escapesRepository ''d'' \<and>
     hookVerdict None ''d'' = None \<and>
     resolveCommitFilePath linkRepo ''c0ffee'' ''d'' 1 None = Inr ''d''"
    by (simp add: linkRepo_d)
       (simp add: entryMode_def escapesRepository_def hookVerdict_def linkRepo_def model_defs)
  have p: "plainBelow linkRepo ''c0ffee'' ''d'' [''b'']"
    by (simp add: isPlainEntry_def entryMode_def linkRepo_def model_defs)
  have j: "foldl path_Join ''d'' [''b''] = ''d/b''"
    by (simp add: model_defs)
  have "resolveLoop linkRepo ''c0ffee'' 1 None [] [''a'', ''b'']
          = Inr (foldl path_Join ''d'' [''b''])"
    by (rule resolveLoop_continues_after_symlink
          [of linkRepo "''c0ffee''" "[]" "''a''" "''d''" "''d''" None 1 "''d''" "[''b'']",
           THEN mp, OF h, THEN conjunct2, THEN mp, OF p])
  then show ?thesis by (simp only: j)
qed

text \<open>
  C2, as the claim words it, fails on the tree of \<open>linkRepo\<close>: the symlink \<^verbatim>\<open>a\<close> stands at a
  non-final position of \<^verbatim>\<open>a/b\<close> and its target resolves to \<^verbatim>\<open>d\<close>, yet the path resolves to
  \<^verbatim>\<open>d/b\<close>: the part \<^verbatim>\<open>b\<close> of the original path was appended after the link was followed.
\<close>

theorem symlink_target_determines_rest_counterexample:
  "entryMode linkRepo ''c0ffee'' ''a'' = Some Symlink
   \<and> ReadCommitTreeEntryContent linkRepo ''c0ffee'' ''a'' = Inr ''d''
   \<and> ResolveCommitFilePath linkRepo ''c0ffee'' ''d'' = Inr ''d''
   \<and> ResolveCommitFilePath linkRepo ''c0ffee'' ''a/b'' = Inr ''d/b''"
  by (simp add: ResolveCommitFilePath_def resolveCommitFilePath.simps entryMode_def
        linkRepo_def model_defs)

section \<open>Policy failures\<close>

lemma policyFailure_resolves:
  "policyFailureInPath repo commit check err depth path \<Longrightarrow>
     resolveCommitFilePath repo commit path depth check = Inl err"
  "policyFailureInLoop repo commit check err depth resolvedPath parts \<Longrightarrow>
     resolveLoop repo commit depth check resolvedPath parts = Inl err"
proof (induction rule: policyFailureInPath_policyFailureInLoop.inducts)
  case (too_deep depth path)
  then show ?case by (simp add: resolveCommitFilePath_too_deep)
next
  case (enter depth path mode)
  then show ?case by (simp add: resolveCommitFilePath_slow)
next
  case (forbidden resolvedPath part link depth rest)
  have "resolveLoop repo commit depth check resolvedPath (part # rest)
          = Inl (TreeEntryNotFoundInRepoErr link)"
    by (rule resolveLoop_forbidden) (simp_all add: forbidden)
  then show ?case by (simp only: forbidden)
next
  case (below resolvedPath part link depth rest)
  have "resolveLoop repo commit depth check resolvedPath (part # rest)
          = (case resolveCommitFilePath repo commit
                    (path_Join (path_Dir (path_Join resolvedPath part)) link) depth check of
               Inl err \<Rightarrow> Inl err
             | Inr resolvedTarget \<Rightarrow> resolveLoop repo commit depth check resolvedTarget rest)"
    by (rule resolveLoop_follow) (simp_all add: below)
  then show ?case by (simp only: below sum.case)
next
  case (after_link resolvedPath part link depth resolvedTarget rest)
  have "resolveLoop repo commit depth check resolvedPath (part # rest)
          = (case resolveCommitFilePath repo commit
                    (path_Join (path_Dir (path_Join resolvedPath part)) link) depth check of
               Inl err \<Rightarrow> Inl err
             | Inr resolvedTarget \<Rightarrow> resolveLoop repo commit depth check resolvedTarget rest)"
    by (rule resolveLoop_follow) (simp_all add: after_link)
  then show ?case by (simp only: after_link sum.case)
next
  case (after_plain resolvedPath part depth rest)
  from after_plain obtain mode
    where "entryMode repo commit (path_Join resolvedPath part) = Some mode"
      and "mode \<noteq> Symlink" and "\<not> IsMalformed mode"
    by (auto simp: isPlainEntry_mode)
  then have "resolveLoop repo commit depth check resolvedPath (part # rest)
               = resolveLoop repo commit depth check (path_Join resolvedPath part) rest"
    by (rule resolveLoop_plain)
  then show ?case by (simp only: after_plain)
qed

lemma policyFailure_kind:
  "policyFailureInPath repo commit check err depth path \<Longrightarrow>
     err = TooManyLevels \<or> (\<exists>link. err = TreeEntryNotFoundInRepoErr link)"
  "policyFailureInLoop repo commit check err depth resolvedPath parts \<Longrightarrow>
     err = TooManyLevels \<or> (\<exists>link. err = TreeEntryNotFoundInRepoErr link)"
  by (induction rule: policyFailureInPath_policyFailureInLoop.inducts) auto

lemma linkRepo_abs_policy:
  "policyFailureInPath linkRepo commit check (TreeEntryNotFoundInRepoErr ''/etc'') 1 ''abs''"
proof (rule policyFailureInPath_policyFailureInLoop.enter [where mode = Symlink])
  show "policyFailureInLoop linkRepo commit check (TreeEntryNotFoundInRepoErr ''/etc'') (1 + 1) []
          (SplitFilepath ''abs'')"
    unfolding SplitFilepath_def
    by (simp, rule policyFailureInPath_policyFailureInLoop.forbidden [where link = "''/etc''"])
       (simp_all add: entryMode_def linkRepo_def model_defs)
qed (simp_all add: entryMode_def linkRepo_def getCommitTreeEntry_def)

lemma linkRepo_x_policy:
  "policyFailureInPath linkRepo commit None (TreeEntryNotFoundInRepoErr ''/etc'') 0 ''x''"
proof (rule policyFailureInPath_policyFailureInLoop.enter [where mode = Symlink])
  have t: "path_Join (path_Dir (path_Join [] ''x'')) ''abs'' = ''abs''"
    by (simp add: model_defs)
  show "policyFailureInLoop linkRepo commit None (TreeEntryNotFoundInRepoErr ''/etc'') (0 + 1) []
          (SplitFilepath ''x'')"
    unfolding SplitFilepath_def
    by (simp, rule policyFailureInPath_policyFailureInLoop.below [where link = "''abs''"])
       (simp_all add: t linkRepo_abs_policy,
        simp_all add: entryMode_def escapesRepository_def hookVerdict_def linkRepo_def model_defs)
qed (simp_all add: entryMode_def linkRepo_def getCommitTreeEntry_def)

lemma linkRepo_link_policy:
  "policyFailureInPath linkRepo commit check (TreeEntryNotFoundInRepoErr ''../outside'') 0 ''link''"
proof (rule policyFailureInPath_policyFailureInLoop.enter [where mode = Symlink])
  show "policyFailureInLoop linkRepo commit check (TreeEntryNotFoundInRepoErr ''../outside'')
          (0 + 1) [] (SplitFilepath ''link'')"
    unfolding SplitFilepath_def
    by (simp, rule policyFailureInPath_policyFailureInLoop.forbidden [where link = "''../outside''"])
       (simp_all add: entryMode_def escapesRepository_def linkRepo_def model_defs)
qed (simp_all add: entryMode_def linkRepo_def getCommitTreeEntry_def)

text \<open>
  C5, as the code has it. A resolution that runs into a policy failure at any level of the
  recursion returns that failure's error to its caller as it was built. The error of an
  absolute link text and of an escaping target is the not-found error carrying the link
  text, the same kind that a missing entry yields, so the type switch
  \<^verbatim>\<open>IsTreeEntryNotFoundInRepoErr\<close> holds of it; the error of a depth above 1000 carries no
  path and is not of that kind.
\<close>

theorem policy_failures_propagate:
  "(policyFailureInPath repo commit check err depth path \<longrightarrow>
      resolveCommitFilePath repo commit path depth check = Inl err \<and>
      ((err = TooManyLevels \<and> \<not> IsTreeEntryNotFoundInRepoErr err) \<or>
       (\<exists>link. err = TreeEntryNotFoundInRepoErr link \<and> IsTreeEntryNotFoundInRepoErr err)))
   \<and> (entryMode repo commit (path_Join resolvedPath part) = Some Symlink \<and>
       ReadCommitTreeEntryContent repo commit (path_Join resolvedPath part) = Inr link \<and>
       (path_IsAbs link \<or>
        escapesRepository (path_Join (path_Dir (path_Join resolvedPath part)) link)) \<longrightarrow>
      resolveLoop repo commit depth check resolvedPath (part # rest)
        = Inl (TreeEntryNotFoundInRepoErr link))
   \<and> (entryMode repo commit (path_Join resolvedPath part) = Some Malformed \<longrightarrow>
      resolveLoop repo commit depth check resolvedPath (part # rest)
        = Inl (TreeEntryNotFoundInRepoErr (path_Join resolvedPath part)))"
proof (intro conjI impI)
  assume p: "policyFailureInPath repo commit check err depth path"
  then show "resolveCommitFilePath repo commit path depth check = Inl err"
    by (rule policyFailure_resolves(1))
  from policyFailure_kind(1) [OF p]
  show "(err = TooManyLevels \<and> \<not> IsTreeEntryNotFoundInRepoErr err) \<or>
        (\<exists>link. err = TreeEntryNotFoundInRepoErr link \<and> IsTreeEntryNotFoundInRepoErr err)"
    by auto
next
  assume "entryMode repo commit (path_Join resolvedPath part) = Some Symlink \<and>
       ReadCommitTreeEntryContent repo commit (path_Join resolvedPath part) = Inr link \<and>
       (path_IsAbs link \<or>
        escapesRepository (path_Join (path_Dir (path_Join resolvedPath part)) link))"
  then show "resolveLoop repo commit depth check resolvedPath (part # rest)
               = Inl (TreeEntryNotFoundInRepoErr link)"
    by (intro resolveLoop_forbidden) simp_all
next
  assume "entryMode repo commit (path_Join resolvedPath part) = Some Malformed"
  then show "resolveLoop repo commit depth check resolvedPath (part # rest)
               = Inl (TreeEntryNotFoundInRepoErr (path_Join resolvedPath part))"
    by (intro resolveLoop_missing [where mode = Malformed]) simp_all
qed

theorem policy_failures_propagate_witness:
  "resolveCommitFilePath linkRepo ''c0ffee'' ''x'' 0 None = Inl (TreeEntryNotFoundInRepoErr ''/etc'')
   \<and> resolveLoop linkRepo ''c0ffee'' 1 None [] [''up'', ''b'']
       = Inl (TreeEntryNotFoundInRepoErr ''..'')
   \<and> resolveLoop linkRepo ''c0ffee'' 1 None [] [''gone'', ''b'']
       = Inl (TreeEntryNotFoundInRepoErr ''gone'')"
proof -
  have up: "entryMode linkRepo ''c0ffee'' (path_Join [] ''up'') = Some Symlink \<and>
       ReadCommitTreeEntryContent linkRepo ''c0ffee'' (path_Join [] ''up'') = Inr ''..'' \<and>
       (path_IsAbs ''..'' \<or>
        escapesRepository (path_Join (path_Dir (path_Join [] ''up'')) ''..''))"
    by (simp add: entryMode_def escapesRepository_def linkRepo_def model_defs)
  have gone: "entryMode linkRepo ''c0ffee'' (path_Join [] ''gone'') = Some Malformed"
    by (simp add: entryMode_def linkRepo_def model_defs)
  have j: "path_Join [] ''gone'' = ''gone''" by (simp add: model_defs)
  have "resolveCommitFilePath linkRepo ''c0ffee'' ''x'' 0 None
          = Inl (TreeEntryNotFoundInRepoErr ''/etc'')"
    using policy_failures_propagate
            [of linkRepo "''c0ffee''" None "TreeEntryNotFoundInRepoErr ''/etc''" 0 "''x''",
             THEN conjunct1]
          linkRepo_x_policy
    by blast
  moreover have "resolveLoop linkRepo ''c0ffee'' 1 None [] [''up'', ''b'']
                   = Inl (TreeEntryNotFoundInRepoErr ''..'')"
    by (rule policy_failures_propagate
          [of linkRepo "''c0ffee''" None _ 1 _ "[]" "''up''" "''..''" "[''b'']",
           THEN conjunct2, THEN conjunct1, THEN mp, OF up])
  moreover have "resolveLoop linkRepo ''c0ffee'' 1 None [] [''gone'', ''b'']
                   = Inl (TreeEntryNotFoundInRepoErr (path_Join [] ''gone''))"
    by (rule policy_failures_propagate
          [of linkRepo "''c0ffee''" None _ 1 _ "[]" "''gone''" _ "[''b'']",
           THEN conjunct2, THEN conjunct2, THEN mp, OF gone])
  ultimately show ?thesis by (simp only: j simp_thms)
qed

text \<open>
  C5, as the claim words it, fails on the tree of \<open>linkRepo\<close>: the absolute link \<^verbatim>\<open>abs\<close> and
  the escaping link \<^verbatim>\<open>up\<close> fail with errors of the same kind as the missing entry \<^verbatim>\<open>gone\<close>,
  the escaping link \<^verbatim>\<open>up\<close> fails with the very error of the missing entry \<^verbatim>\<open>..\<close>, and the
  error of the cycle in \<open>loopRepo\<close> carries no path.
\<close>

theorem policy_errors_distinguishable_counterexample:
  "ResolveCommitFilePath linkRepo ''c0ffee'' ''abs'' = Inl (TreeEntryNotFoundInRepoErr ''/etc'')
   \<and> ResolveCommitFilePath linkRepo ''c0ffee'' ''gone'' = Inl (TreeEntryNotFoundInRepoErr ''gone'')
   \<and> ResolveCommitFilePath linkRepo ''c0ffee'' ''up'' = Inl (TreeEntryNotFoundInRepoErr ''..'')
   \<and> ResolveCommitFilePath linkRepo ''c0ffee'' ''..'' = Inl (TreeEntryNotFoundInRepoErr ''..'')
   \<and> ResolveCommitFilePath loopRepo ''c0ffee'' ''self'' = Inl TooManyLevels"
proof -
  have "resolveCommitFilePath loopRepo ''c0ffee'' ((\<lambda>i::nat. ''self'') 0) 0 None
          = Inl TooManyLevels"
    by (rule chain_too_long [of loopRepo "''c0ffee''" "\<lambda>i. ''self''" 1001])
       (simp_all add: loopRepo_chain)
  then show ?thesis
    by (simp add: ResolveCommitFilePath_def)
       (simp add: resolveCommitFilePath.simps linkRepo_def model_defs)
qed

text \<open>
  C9. When resolution from the entry point runs, at any level, into a symlink whose text
  is absolute or whose computed target escapes the repository, it fails with the
  not-found error carrying the link text, and both existence probes return \<^verbatim>\<open>false\<close> with
  no error. A missing top-level entry gives the same answers.
\<close>

theorem probes_swallow_forbidden_links:
  "(policyFailureInPath repo commit None (TreeEntryNotFoundInRepoErr link) 0 path \<longrightarrow>
      ResolveCommitFilePath repo commit path = Inl (TreeEntryNotFoundInRepoErr link) \<and>
      IsCommitFileExist repo commit path = Inr False \<and>
      IsCommitDirectoryExist repo commit path = Inr False)
   \<and> (isName p \<and> entryMode repo commit p = Some Malformed \<longrightarrow>
      ResolveCommitFilePath repo commit p = Inl (TreeEntryNotFoundInRepoErr p) \<and>
      IsCommitFileExist repo commit p = Inr False \<and>
      IsCommitDirectoryExist repo commit p = Inr False)"
proof (intro conjI impI)
  assume "policyFailureInPath repo commit None (TreeEntryNotFoundInRepoErr link) 0 path"
  then have r: "ResolveCommitFilePath repo commit path = Inl (TreeEntryNotFoundInRepoErr link)"
    unfolding ResolveCommitFilePath_def by (rule policyFailure_resolves(1))
  then show "ResolveCommitFilePath repo commit path = Inl (TreeEntryNotFoundInRepoErr link)" .
  from r show "IsCommitFileExist repo commit path = Inr False"
    by (simp add: IsCommitFileExist_def isCommitFileExist_def checkCommitFileMode_not_found)
  from r show "IsCommitDirectoryExist repo commit path = Inr False"
    by (simp add: IsCommitDirectoryExist_def isCommitDirectoryExist_def
          checkCommitFileMode_not_found)
next
  assume a: "isName p \<and> entryMode repo commit p = Some Malformed"
  then have "resolveCommitFilePath repo commit p 0 None
               = resolveLoop repo commit (0 + 1) None [] [p]"
    by (simp add: resolveCommitFilePath_slow SplitFilepath_name)
  also have "\<dots> = Inl (TreeEntryNotFoundInRepoErr (path_Join [] p))"
    using a by (intro resolveLoop_missing [where mode = Malformed])
               (simp_all add: path_Join_empty_name)
  finally have r: "ResolveCommitFilePath repo commit p = Inl (TreeEntryNotFoundInRepoErr p)"
    using a by (simp add: ResolveCommitFilePath_def path_Join_empty_name)
  then show "ResolveCommitFilePath repo commit p = Inl (TreeEntryNotFoundInRepoErr p)" .
  from r show "IsCommitFileExist repo commit p = Inr False"
    by (simp add: IsCommitFileExist_def isCommitFileExist_def checkCommitFileMode_not_found)
  from r show "IsCommitDirectoryExist repo commit p = Inr False"
    by (simp add: IsCommitDirectoryExist_def isCommitDirectoryExist_def
          checkCommitFileMode_not_found)
qed

theorem probes_swallow_forbidden_links_witness:
  "IsCommitFileExist linkRepo ''c0ffee'' ''x'' = Inr False
   \<and> IsCommitDirectoryExist linkRepo ''c0ffee'' ''x'' = Inr False
   \<and> IsCommitFileExist linkRepo ''c0ffee'' ''link'' = Inr False
   \<and> IsCommitDirectoryExist linkRepo ''c0ffee'' ''link'' = Inr False
   \<and> IsCommitFileExist linkRepo ''c0ffee'' ''gone'' = Inr False
   \<and> IsCommitDirectoryExist linkRepo ''c0ffee'' ''gone'' = Inr False"
proof -
  have g: "isName ''gone'' \<and> entryMode linkRepo ''c0ffee'' ''gone'' = Some Malformed"
    by (simp add: isName_def entryMode_def getCommitTreeEntry_def linkRepo_def)
  show ?thesis
    using probes_swallow_forbidden_links
            [of linkRepo "''c0ffee''" "''/etc''" "''x''" "''gone''"]
          probes_swallow_forbidden_links
            [of linkRepo "''c0ffee''" "''../outside''" "''link''" "''gone''"]
          linkRepo_x_policy [of "''c0ffee''"] linkRepo_link_policy [of "''c0ffee''" None] g
    by blast
qed

section \<open>Clean relative paths\<close>






lemma joinSlash_snoc:
  "ns \<noteq> [] \<Longrightarrow> joinSlash (ns @ [n]) = joinSlash ns @ CHR ''/'' # n"
  by (induction ns rule: joinSlash.induct) simp_all



















section \<open>Links that leave the repository\<close>









end
